theory Spec2Isabelle
  imports Main "HOL-Library.Word"
begin

section \<open>ikago-client: the command line entry point (cmd/ikago-client/main.go)\<close>

text \<open>
  The file embeds \<^verbatim>\<open>main\<close> and \<^verbatim>\<open>splitArg\<close> of
  \<^verbatim>\<open>cmd/ikago-client/main.go\<close>. The packages \<^verbatim>\<open>ikago/internal/config\<close>,
  \<^verbatim>\<open>crypto\<close>, \<^verbatim>\<open>log\<close> and \<^verbatim>\<open>pcap\<close> are imported by the file but are not part of
  the sources at hand: what \<^verbatim>\<open>main\<close> calls in them is a parameter of the model (a field of the
  record \<open>env\<close> below), and the few types \<^verbatim>\<open>main\<close> looks into are written out.
\<close>

subsection \<open>Data\<close>

text \<open>\<^verbatim>\<open>net.IP\<close> is a byte slice.\<close>

type_synonym ip = "8 word list"

text \<open>
  Modelled from the spec: the type \<^verbatim>\<open>pcap.Filter\<close> and its implementations are missing.
  The spec gives the variant ``ByIP(address), ByPort(port), ByIPPort(address, port)'';
  \<^verbatim>\<open>main\<close> names the tags \<^verbatim>\<open>FilterTypeIP\<close>, \<^verbatim>\<open>FilterTypeIPPort\<close>, \<^verbatim>\<open>FilterTypePort\<close>
  and the field \<^verbatim>\<open>Port\<close> of \<^verbatim>\<open>*pcap.PortFilter\<close>, which it compares with a \<^verbatim>\<open>uint16\<close>.
\<close>

datatype Filter =
    IPFilter ip
  | IPPortFilter ip "16 word"
  | PortFilter "16 word"

datatype FilterType_tag = FilterTypeIP | FilterTypeIPPort | FilterTypePort

fun FilterType :: "Filter \<Rightarrow> FilterType_tag" where
  "FilterType (IPFilter a) = FilterTypeIP"
| "FilterType (IPPortFilter a p) = FilterTypeIPPort"
| "FilterType (PortFilter p) = FilterTypePort"

text \<open>The field read by \<^verbatim>\<open>filter.(*pcap.PortFilter).Port\<close>. The type assertion holds
  for a port filter only, and the source makes it under \<^verbatim>\<open>case pcap.FilterTypePort\<close>
  only: the function has no equation for the other filters.\<close>

fun PortFilter_Port :: "Filter \<Rightarrow> 16 word" where
  "PortFilter_Port (PortFilter p) = p"

text \<open>The configuration record, with the fields of the literal \<^verbatim>\<open>&config.Config{...}\<close>
  of lines 56--65. \<^verbatim>\<open>UpPort\<close> is a Go \<^verbatim>\<open>int\<close> (it is assigned \<^verbatim>\<open>*argUpPort\<close>); the only
  arithmetic on it is \<^verbatim>\<open>49152 + r.Intn(16384)\<close>, far from any overflow.\<close>

record Config =
  ListenDevs :: "string list"
  UpDev :: string
  Method :: string
  Password :: string
  Verbose :: bool
  UpPort :: int
  Filters :: "string list"
  Server :: string

subsection \<open>Upstream port selection (lines 102--129)\<close>

text \<open>The conversion \<^verbatim>\<open>uint16(cfg.UpPort)\<close> keeps the low 16 bits.\<close>

definition uint16 :: "int \<Rightarrow> 16 word" where
  "uint16 i = word_of_int i"

text \<open>
  The inner loop, lines 109--124: \<^verbatim>\<open>exist\<close> starts false; each filter is examined by the
  \<^verbatim>\<open>switch\<close> on its type, and the loop is left as soon as \<^verbatim>\<open>exist\<close> is set. The first case
  (\<^verbatim>\<open>FilterTypeIP, FilterTypeIPPort\<close>) only breaks out of the \<^verbatim>\<open>switch\<close>. The
  \<^verbatim>\<open>default\<close> case has no value of \<open>FilterType_tag\<close> that reaches it.
\<close>

fun exist_loop :: "Filter list \<Rightarrow> int \<Rightarrow> bool" where
  "exist_loop [] upPort = False"
| "exist_loop (f # filters) upPort =
     (let exist = (case FilterType f of
                     FilterTypeIP \<Rightarrow> False
                   | FilterTypeIPPort \<Rightarrow> False
                   | FilterTypePort \<Rightarrow> PortFilter_Port f = uint16 upPort)
      in if exist then True else exist_loop filters upPort)"

text \<open>
  \<^verbatim>\<open>r.Intn(n)\<close> of Go's \<^verbatim>\<open>math/rand\<close> returns a number in the half-open interval
  \<open>[0, n)\<close>; for \<open>n\<close> a power of two (here 16384) it is the generator's next 31-bit output
  masked with \<open>n - 1\<close>, that is, the output modulo \<open>n\<close>. The generator itself
  (\<^verbatim>\<open>rand.New(rand.NewSource(time.Now().UnixNano()))\<close>) is a parameter: \<open>int31 k\<close> is its
  \<open>k\<close>-th output in this run.
\<close>

definition Intn :: "nat \<Rightarrow> nat \<Rightarrow> nat" where
  "Intn raw n = raw mod n"

text \<open>
  The outer loop, lines 107--128: draw a port, look for it among the filters, leave the loop
  when it was not found. Nothing bounds the number of rounds, so the loop is a partial
  function: \<open>None\<close> is the run that never leaves it. \<open>k\<close> counts the draws made so far.
\<close>

partial_function (option) randomize_loop :: "Filter list \<Rightarrow> (nat \<Rightarrow> nat) \<Rightarrow> nat \<Rightarrow> int option" where
  "randomize_loop filters int31 k =
     (let upPort = 49152 + int (Intn (int31 k) 16384)
      in if exist_loop filters upPort
         then randomize_loop filters int31 (Suc k)
         else Some upPort)"

declare randomize_loop.simps [code]

text \<open>Lines 102--129 as a whole: the loop runs only when the configured port is 0.\<close>

definition randomizeUpPort :: "int \<Rightarrow> Filter list \<Rightarrow> (nat \<Rightarrow> nat) \<Rightarrow> int option" where
  "randomizeUpPort cfgUpPort filters int31 =
     (if cfgUpPort = 0 then randomize_loop filters int31 0 else Some cfgUpPort)"

subsection \<open>splitArg (lines 199--213)\<close>

text \<open>
  Go's \<^verbatim>\<open>strings.Split(s, sep)\<close> for a one-byte separator, as its loop runs: while the
  separator occurs in \<open>s\<close>, the part before its first occurrence is a component and \<open>s\<close>
  continues behind it; what is left at the end is the last component.
\<close>

function Split :: "string \<Rightarrow> char \<Rightarrow> string list" where
  "Split s sep =
     (if sep \<in> set s
      then takeWhile (\<lambda>c. c \<noteq> sep) s # Split (tl (dropWhile (\<lambda>c. c \<noteq> sep) s)) sep
      else [s])"
  by pat_completeness auto
termination
proof (relation "measure (\<lambda>(s, sep). length s)")
  show "wf (measure (\<lambda>(s, sep). length s))" by simp
next
  fix s :: string and sep :: char
  assume "sep \<in> set s"
  then have "dropWhile (\<lambda>c. c \<noteq> sep) s \<noteq> []" by auto
  then have "length (tl (dropWhile (\<lambda>c. c \<noteq> sep) s)) < length (dropWhile (\<lambda>c. c \<noteq> sep) s)"
    by simp
  also have "\<dots> \<le> length s" by (rule length_dropWhile_le)
  finally show "((tl (dropWhile (\<lambda>c. c \<noteq> sep) s), sep), (s, sep)) \<in> measure (\<lambda>(s, sep). length s)"
    by simp
qed

text \<open>Go's \<^verbatim>\<open>strings.Trim(s, cutset)\<close>: \<open>s\<close> without its leading and trailing bytes that
  are in \<open>cutset\<close>.\<close>

definition Trim :: "string \<Rightarrow> string \<Rightarrow> string" where
  "Trim s cutset =
     rev (dropWhile (\<lambda>c. c \<in> set cutset) (rev (dropWhile (\<lambda>c. c \<in> set cutset) s)))"

text \<open>The loop of lines 207--209 appends the trimmed components to \<^verbatim>\<open>result\<close>.\<close>

fun splitArg_loop :: "string list \<Rightarrow> string list \<Rightarrow> string list" where
  "splitArg_loop result [] = result"
| "splitArg_loop result (str # strs) = splitArg_loop (result @ [Trim str '' '']) strs"

text \<open>A nil slice and an empty slice are both the empty list: \<^verbatim>\<open>main\<close> only takes the
  length of the result and ranges over it.\<close>

definition splitArg :: "string \<Rightarrow> string list" where
  "splitArg s = (if s = [] then [] else splitArg_loop [] (Split s (CHR '','')))"

text \<open>The comma-separated string that a list of components stands for.\<close>

fun join_comma :: "string list \<Rightarrow> string" where
  "join_comma [] = []"
| "join_comma [c] = c"
| "join_comma (c # d # cs) = c @ CHR '','' # join_comma (d # cs)"

subsection \<open>The command line and the world around \<^verbatim>\<open>main\<close>\<close>

text \<open>The flag variables of lines 20--29, after \<^verbatim>\<open>flag.Parse()\<close>.\<close>

record Flags =
  argListDevs :: bool
  argConfig :: string
  argListenDevs :: string
  argUpDev :: string
  argMethod :: string
  argPassword :: string
  argVerbose :: bool
  argUpPort :: int
  argFilters :: string
  argServer :: string

text \<open>\<^verbatim>\<open>pcap.IPPort\<close>, of which \<^verbatim>\<open>main\<close> reads the fields \<^verbatim>\<open>IP\<close> and \<^verbatim>\<open>Port\<close>.\<close>

record IPPort =
  IP :: ip
  Port :: "16 word"

text \<open>The literal \<^verbatim>\<open>pcap.Client{...}\<close> of lines 173--182; \<open>'d\<close> is \<^verbatim>\<open>pcap.Device\<close> and
  \<open>'c\<close> is \<^verbatim>\<open>crypto.Crypto\<close>.\<close>

record ('d, 'c) Client =
  Client_Filters :: "Filter list"
  Client_UpPort :: "16 word"
  Client_ServerIP :: ip
  Client_ServerPort :: "16 word"
  Client_ListenDevs :: "'d list"
  Client_UpDev :: 'd
  Client_GatewayDev :: 'd
  Client_Crypto :: 'c

text \<open>
  What \<^verbatim>\<open>main\<close> calls outside its file. A Go function returning \<^verbatim>\<open>(value, error)\<close> is a
  sum, \<open>Inl\<close> carrying the text of the error; \<^verbatim>\<open>FindUpstreamDevAndGatewayDev\<close> returns two
  device pointers, each of which may be nil. The \<^verbatim>\<open>String\<close> fields are the texts that
  \<^verbatim>\<open>%s\<close> prints.
\<close>

record ('d, 'c) env =
  config_ParseFile :: "string \<Rightarrow> string + Config"
  pcap_FindAllDevs :: "string + 'd list"
  pcap_ParseFilter :: "string \<Rightarrow> string + Filter"
  pcap_ParseIPPort :: "string \<Rightarrow> string + IPPort"
  crypto_Parse :: "string \<Rightarrow> string \<Rightarrow> string + 'c"
  pcap_FindListenDevs :: "string list \<Rightarrow> string + 'd list"
  pcap_FindUpstreamDevAndGatewayDev :: "string \<Rightarrow> string + ('d option \<times> 'd option)"
  Client_Open :: "('d, 'c) Client \<Rightarrow> string option"
  rand_Int31 :: "nat \<Rightarrow> nat"
  Device_String :: "'d \<Rightarrow> string"
  Filter_String :: "Filter \<Rightarrow> string"
  IPPort_String :: "IPPort \<Rightarrow> string"

text \<open>What a run does that can be observed: the log, and the calls that look devices up or
  open them.\<close>

datatype ('d, 'c) event =
    SetVerbose bool
  | Info string
  | Fatal string
  | FindAllDevs_call
  | FindListenDevs_call "string list"
  | FindUpstreamDevAndGatewayDev_call string
  | Open_call "('d, 'c) Client"

fun is_device_event :: "('d, 'c) event \<Rightarrow> bool" where
  "is_device_event FindAllDevs_call = True"
| "is_device_event (FindListenDevs_call names) = True"
| "is_device_event (FindUpstreamDevAndGatewayDev_call name) = True"
| "is_device_event (Open_call p) = True"
| "is_device_event e = False"

fun is_Fatal :: "('d, 'c) event \<Rightarrow> bool" where
  "is_Fatal (Fatal msg) = True"
| "is_Fatal e = False"

text \<open>A finished run: what happened, in order, and the exit status of the process.\<close>

type_synonym ('d, 'c) run = "('d, 'c) event list \<times> int"

text \<open>
  Modelled from the spec: \<^verbatim>\<open>log.Fatalln\<close> (package \<^verbatim>\<open>ikago/internal/log\<close>) is missing. The
  spec has fatal errors ``reported to the operator'' and the process ``terminate with a
  non-zero status''; the status is taken to be 1, the one that line 100 passes to
  \<^verbatim>\<open>os.Exit\<close> right behind such a call. Nothing after a call of \<^verbatim>\<open>log.Fatalln\<close> runs.
\<close>

definition Fatalln :: "string \<Rightarrow> ('d, 'c) event list \<Rightarrow> ('d, 'c) run" where
  "Fatalln msg tr = (tr @ [Fatal msg], 1)"

text \<open>The decimal text that \<^verbatim>\<open>%d\<close> prints.\<close>

fun show_nat :: "nat \<Rightarrow> string" where
  "show_nat n =
     (if n < 10 then [''0123456789'' ! n]
      else show_nat (n div 10) @ [''0123456789'' ! (n mod 10)])"

definition show_int :: "int \<Rightarrow> string" where
  "show_int i = (if i < 0 then CHR ''-'' # show_nat (nat (- i)) else show_nat (nat i))"

subsection \<open>main (lines 36--197)\<close>

text \<open>Lines 49--66: the configuration comes from the file named by \<^verbatim>\<open>-c\<close> when there is
  one, and from the other flags otherwise.\<close>

definition loadConfig :: "('d, 'c) env \<Rightarrow> Flags \<Rightarrow> string + Config" where
  "loadConfig env args =
     (if argConfig args \<noteq> []
      then (case config_ParseFile env (argConfig args) of
              Inl err \<Rightarrow> Inl (''parse config file '' @ argConfig args @ '': '' @ err)
            | Inr cfg \<Rightarrow> Inr cfg)
      else Inr \<lparr> ListenDevs = splitArg (argListenDevs args),
                 UpDev = argUpDev args,
                 Method = argMethod args,
                 Password = argPassword args,
                 Verbose = argVerbose args,
                 UpPort = argUpPort args,
                 Filters = splitArg (argFilters args),
                 Server = argServer args \<rparr>)"

text \<open>Lines 72--82, the exclusive command \<^verbatim>\<open>-list-devices\<close>.\<close>

definition listDevices_banner :: string where
  "listDevices_banner = ''Available devices are listed below, use -listen-devices [devices] or -upstream-device [device] to designate device:''"

definition listDevices :: "('d, 'c) env \<Rightarrow> ('d, 'c) event list \<Rightarrow> ('d, 'c) run" where
  "listDevices env tr =
     (let tr1 = tr @ [Info listDevices_banner, FindAllDevs_call]
      in case pcap_FindAllDevs env of
           Inl err \<Rightarrow> Fatalln (''list devices: '' @ err) tr1
         | Inr devs \<Rightarrow> (tr1 @ map (\<lambda>dev. Info (''  '' @ Device_String env dev @ [CHR 0x0A])) devs, 0))"

text \<open>Lines 91--97: the filter strings are parsed in order; the first that does not parse
  is fatal.\<close>

fun parseFilters :: "('d, 'c) env \<Rightarrow> Filter list \<Rightarrow> string list \<Rightarrow> string + Filter list" where
  "parseFilters env filters [] = Inr filters"
| "parseFilters env filters (strFilter # strs) =
     (case pcap_ParseFilter env strFilter of
        Inl err \<Rightarrow> Inl (''parse filter '' @ strFilter @ '': '' @ err)
      | Inr f \<Rightarrow> parseFilters env (filters @ [f]) strs)"

text \<open>Lines 84--101. The \<^verbatim>\<open>os.Exit(1)\<close> of line 100 stands behind a \<^verbatim>\<open>log.Fatalln\<close>
  and is never reached.\<close>

definition verifyParameters :: "('d, 'c) env \<Rightarrow> Config \<Rightarrow> string + Filter list" where
  "verifyParameters env cfg =
     (if length (Filters cfg) \<le> 0 then Inl ''Please provide filters by -f [filters].''
      else if Server cfg = [] then Inl ''Please provide server by -s [address:port].''
      else case parseFilters env [] (Filters cfg) of
             Inl msg \<Rightarrow> Inl msg
           | Inr filters \<Rightarrow>
               if UpPort cfg < 0 \<or> UpPort cfg \<ge> 65536
               then Inl (''parse upstream port '' @ show_int (UpPort cfg) @ '': out of range'')
               else Inr filters)"

text \<open>Lines 140--148, the announcement of what is proxied.\<close>

definition proxyInfo :: "('d, 'c) env \<Rightarrow> Filter list \<Rightarrow> int \<Rightarrow> IPPort \<Rightarrow> ('d, 'c) event list" where
  "proxyInfo env filters upPort serverIPPort =
     (if length filters = 1
      then [Info (''Proxy from '' @ Filter_String env (filters ! 0) @ '' through :''
                  @ show_int upPort @ '' to '' @ IPPort_String env serverIPPort @ [CHR 0x0A])]
      else [Info ''Proxy:'']
           @ map (\<lambda>f. Info (CHR 0x0A # ''  '' @ Filter_String env f)) filters
           @ [Info ('' through :'' @ show_int upPort @ '' to '' @ IPPort_String env serverIPPort
                    @ [CHR 0x0A])])"

text \<open>Lines 150--197: the devices are looked up, the client is built and opened. When
  \<^verbatim>\<open>p.Open()\<close> returns without an error, \<^verbatim>\<open>main\<close> returns and the process ends with
  status 0. The goroutine of lines 187--191, which closes the client when a signal arrives,
  is outside the model.\<close>

definition openClient ::
  "('d, 'c) env \<Rightarrow> Config \<Rightarrow> Filter list \<Rightarrow> int \<Rightarrow> IPPort \<Rightarrow> 'c \<Rightarrow> ('d, 'c) event list \<Rightarrow> ('d, 'c) run" where
  "openClient env cfg filters upPort serverIPPort c tr =
     (let tr1 = tr @ [FindListenDevs_call (ListenDevs cfg)]
      in case pcap_FindListenDevs env (ListenDevs cfg) of
           Inl err \<Rightarrow> Fatalln (''find listen devices: '' @ err) tr1
         | Inr listenDevs \<Rightarrow>
             if length listenDevs \<le> 0
             then Fatalln ''find listen devices: cannot determine'' tr1
             else
               let tr2 = tr1 @ [FindUpstreamDevAndGatewayDev_call (UpDev cfg)]
               in case pcap_FindUpstreamDevAndGatewayDev env (UpDev cfg) of
                    Inl err \<Rightarrow>
                      Fatalln (''find upstream device and gateway device: '' @ err) tr2
                  | Inr (None, None) \<Rightarrow>
                      Fatalln ''find upstream device and gateway device: cannot determine'' tr2
                  | Inr (None, Some gatewayDev) \<Rightarrow>
                      Fatalln ''find upstream device: cannot determine'' tr2
                  | Inr (Some upDev, None) \<Rightarrow>
                      Fatalln ''find gateway device: cannot determine'' tr2
                  | Inr (Some upDev, Some gatewayDev) \<Rightarrow>
                      let p = \<lparr> Client_Filters = filters,
                                Client_UpPort = uint16 upPort,
                                Client_ServerIP = IP serverIPPort,
                                Client_ServerPort = Port serverIPPort,
                                Client_ListenDevs = listenDevs,
                                Client_UpDev = upDev,
                                Client_GatewayDev = gatewayDev,
                                Client_Crypto = c \<rparr>;
                          tr3 = tr2 @ [Open_call p]
                      in case Client_Open env p of
                           Some err \<Rightarrow> Fatalln (''open pcap: '' @ err) tr3
                         | None \<Rightarrow> (tr3, 0))"

text \<open>Lines 84--197, what runs when \<^verbatim>\<open>-list-devices\<close> is not given. \<open>None\<close> is the run
  that stays in the port selection loop for ever.\<close>

definition proxy :: "('d, 'c) env \<Rightarrow> Config \<Rightarrow> ('d, 'c) event list \<Rightarrow> ('d, 'c) run option" where
  "proxy env cfg tr =
     (case verifyParameters env cfg of
        Inl msg \<Rightarrow> Some (Fatalln msg tr)
      | Inr filters \<Rightarrow>
          (case randomizeUpPort (UpPort cfg) filters (rand_Int31 env) of
             None \<Rightarrow> None
           | Some upPort \<Rightarrow>
               (case pcap_ParseIPPort env (Server cfg) of
                  Inl err \<Rightarrow> Some (Fatalln (''parse server '' @ Server cfg @ '': '' @ err) tr)
                | Inr serverIPPort \<Rightarrow>
                    (case crypto_Parse env (Method cfg) (Password cfg) of
                       Inl err \<Rightarrow> Some (Fatalln (''parse crypto: '' @ err) tr)
                     | Inr c \<Rightarrow>
                         Some (openClient env cfg filters upPort serverIPPort c
                                 (tr @ proxyInfo env filters upPort serverIPPort))))))"

definition main :: "('d, 'c) env \<Rightarrow> Flags \<Rightarrow> ('d, 'c) run option" where
  "main env args =
     (case loadConfig env args of
        Inl msg \<Rightarrow> Some (Fatalln msg [])
      | Inr cfg \<Rightarrow>
          (let tr = [SetVerbose (Verbose cfg)]
           in if argListDevs args then Some (listDevices env tr) else proxy env cfg tr))"

subsection \<open>Properties of a run\<close>

text \<open>A run that ends in a fatal report with a non-zero status, and in which no device was
  looked up or opened.\<close>

definition fatal_before_devices :: "('d, 'c) run option \<Rightarrow> bool" where
  "fatal_before_devices r =
     (case r of
        None \<Rightarrow> False
      | Some (tr, st) \<Rightarrow>
          st \<noteq> 0 \<and> tr \<noteq> [] \<and> is_Fatal (last tr) \<and> \<not> list_ex is_device_event tr)"

text \<open>The configuration errors of the spec: ``filters empty, server missing, port out of
  [0,65535]''.\<close>

definition config_error :: "Config \<Rightarrow> bool" where
  "config_error cfg \<longleftrightarrow>
     Filters cfg = [] \<or> Server cfg = [] \<or> UpPort cfg < 0 \<or> 65535 < UpPort cfg"

text \<open>The resolution errors of the spec: ``no matching device, ambiguous device, crypto
  method unknown, malformed filter string''; the server address that does not parse is
  counted with them.\<close>

definition resolution_error :: "('d, 'c) env \<Rightarrow> Config \<Rightarrow> bool" where
  "resolution_error env cfg \<longleftrightarrow>
     list_ex (\<lambda>s. isl (pcap_ParseFilter env s)) (Filters cfg)
     \<or> isl (pcap_ParseIPPort env (Server cfg))
     \<or> isl (crypto_Parse env (Method cfg) (Password cfg))
     \<or> (case pcap_FindListenDevs env (ListenDevs cfg) of
           Inl err \<Rightarrow> True
         | Inr listenDevs \<Rightarrow> listenDevs = [])
     \<or> (case pcap_FindUpstreamDevAndGatewayDev env (UpDev cfg) of
           Inl err \<Rightarrow> True
         | Inr (upDev, gatewayDev) \<Rightarrow> upDev = None \<or> gatewayDev = None)"

text \<open>The port selection, if the run gets to it, returns.\<close>

definition port_selection_returns :: "('d, 'c) env \<Rightarrow> Config \<Rightarrow> bool" where
  "port_selection_returns env cfg =
     (case verifyParameters env cfg of
        Inl msg \<Rightarrow> True
      | Inr filters \<Rightarrow> randomizeUpPort (UpPort cfg) filters (rand_Int31 env) \<noteq> None)"

text \<open>A log entry is a fatal report with an empty text.\<close>

fun is_empty_Fatal :: "('d, 'c) event \<Rightarrow> bool" where
  "is_empty_Fatal (Fatal msg) = (msg = [])"
| "is_empty_Fatal e = False"

text \<open>The exit status is non-zero exactly when the run reported a fatal error; the report
  is then the last thing the run did, and no fatal report is without text.\<close>

definition exit_discipline :: "('d, 'c) run \<Rightarrow> bool" where
  "exit_discipline r =
     (case r of (tr, st) \<Rightarrow>
        (st \<noteq> 0) = list_ex is_Fatal tr
        \<and> (st = 0 \<or> (tr \<noteq> [] \<and> is_Fatal (last tr) \<and> \<not> list_ex is_Fatal (butlast tr)))
        \<and> \<not> list_ex is_empty_Fatal tr)"

subsection \<open>Concrete inputs\<close>

text \<open>Two random sources: one whose draws count up from 48, and one that draws 0 for
  ever.\<close>

definition counting_source :: "nat \<Rightarrow> nat" where
  "counting_source k = 48 + k"

definition stuck_source :: "nat \<Rightarrow> nat" where
  "stuck_source k = 0"

text \<open>A configuration as a file may give it: two filters, the upstream port left to the
  selection.\<close>

definition file_cfg :: Config where
  "file_cfg = \<lparr> ListenDevs = [''eth0''], UpDev = ''eth1'', Method = ''plain'', Password = [],
                Verbose = False, UpPort = 0, Filters = [''10.0.0.1'', '':49200''],
                Server = ''203.0.113.5:12345'' \<rparr>"

text \<open>An environment in which everything succeeds for the filters \<^verbatim>\<open>:49200\<close> and
  \<^verbatim>\<open>10.0.0.1\<close>, the server \<^verbatim>\<open>203.0.113.5:12345\<close> and the method \<^verbatim>\<open>plain\<close>; the same
  with a device enumeration that fails; and some command lines.\<close>

definition example_env :: "(string, string) env" where
  "example_env =
     \<lparr> config_ParseFile = (\<lambda>path. if path = ''client.json'' then Inr file_cfg
                                 else Inl ''no such file''),
       pcap_FindAllDevs = Inr [''eth0'', ''lo''],
       pcap_ParseFilter = (\<lambda>s. if s = '':49200'' then Inr (PortFilter 49200)
                                else if s = ''10.0.0.1'' then Inr (IPFilter [10, 0, 0, 1])
                                else Inl ''invalid filter''),
       pcap_ParseIPPort = (\<lambda>s. if s = ''203.0.113.5:12345''
                                then Inr \<lparr> IP = [203, 0, 113, 5], Port = 12345 \<rparr>
                                else Inl ''invalid address''),
       crypto_Parse = (\<lambda>method password. if method = ''plain'' then Inr ''plain''
                                           else Inl ''method not support''),
       pcap_FindListenDevs = (\<lambda>names. Inr [''eth0'']),
       pcap_FindUpstreamDevAndGatewayDev = (\<lambda>name. Inr (Some ''eth1'', Some ''gateway'')),
       Client_Open = (\<lambda>p. None),
       rand_Int31 = counting_source,
       Device_String = (\<lambda>dev. dev),
       Filter_String = (\<lambda>f. ''filter''),
       IPPort_String = (\<lambda>a. ''server'') \<rparr>"

definition no_devices_env :: "(string, string) env" where
  "no_devices_env = example_env \<lparr> pcap_FindAllDevs := Inl ''permission denied'' \<rparr>"

definition no_args :: Flags where
  "no_args = \<lparr> argListDevs = False, argConfig = [], argListenDevs = [], argUpDev = [],
               argMethod = ''plain'', argPassword = [], argVerbose = False, argUpPort = 0,
               argFilters = [], argServer = [] \<rparr>"

definition list_args :: Flags where
  "list_args = no_args \<lparr> argListDevs := True \<rparr>"

definition list_bad_args :: Flags where
  "list_bad_args = no_args \<lparr> argListDevs := True, argMethod := ''rot13'', argFilters := ''bogus'',
                             argServer := ''203.0.113.5:12345'' \<rparr>"

definition file_args :: Flags where
  "file_args = no_args \<lparr> argConfig := ''client.json'' \<rparr>"

definition file_and_inline_args :: Flags where
  "file_and_inline_args = no_args \<lparr> argConfig := ''client.json'', argListenDevs := ''wlan0'',
        argUpDev := ''wlan1'', argMethod := ''rot13'', argPassword := ''secret'', argVerbose := True,
        argUpPort := 70000, argFilters := ''bogus'', argServer := ''nowhere'' \<rparr>"

definition unknown_method_args :: Flags where
  "unknown_method_args = no_args \<lparr> argMethod := ''rot13'', argFilters := '':49200'',
                                   argServer := ''203.0.113.5:12345'' \<rparr>"

text \<open>A filter for every port of 49152--65535, as strings \<^verbatim>\<open>:49152\<close>, \<^verbatim>\<open>:49153\<close>, ... in
  a configuration file, and a filter parser that reads \<^verbatim>\<open>:port\<close> in decimal.\<close>

definition port_range :: "nat list" where
  "port_range = [49152..<65536]"

definition covering_filters :: "Filter list" where
  "covering_filters = map (\<lambda>n. PortFilter (of_nat n)) port_range"

definition digit_val :: "char \<Rightarrow> nat" where
  "digit_val c = of_char c - 48"

definition is_digit :: "char \<Rightarrow> bool" where
  "is_digit c \<longleftrightarrow> c \<in> set ''0123456789''"

definition read_nat :: "string \<Rightarrow> nat" where
  "read_nat ds = foldl (\<lambda>a c. 10 * a + digit_val c) 0 ds"

definition parse_port_filter :: "string \<Rightarrow> string + Filter" where
  "parse_port_filter s =
     (case s of
        [] \<Rightarrow> Inl ''invalid filter''
      | c # ds \<Rightarrow>
          if c = CHR '':'' \<and> ds \<noteq> [] \<and> list_all is_digit ds \<and> read_nat ds < 65536
          then Inr (PortFilter (of_nat (read_nat ds)))
          else Inl ''invalid filter'')"

definition covering_cfg :: Config where
  "covering_cfg = \<lparr> ListenDevs = [], UpDev = [], Method = ''rot13'', Password = [],
                    Verbose = False, UpPort = 0,
                    Filters = map (\<lambda>n. CHR '':'' # show_nat n) port_range,
                    Server = ''203.0.113.5:12345'' \<rparr>"

definition covering_env :: "(string, string) env" where
  "covering_env =
     example_env \<lparr> config_ParseFile := (\<lambda>path. if path = ''ports.json'' then Inr covering_cfg
                                                else Inl ''no such file''),
                   pcap_ParseFilter := parse_port_filter \<rparr>"

definition covering_args :: Flags where
  "covering_args = no_args \<lparr> argConfig := ''ports.json'' \<rparr>"

text \<open>Two command lines with \<^verbatim>\<open>-list-devices\<close>: one with an upstream port out of range,
  one naming a configuration file that does not exist.\<close>

definition list_port_args :: Flags where
  "list_port_args = no_args \<lparr> argListDevs := True, argUpPort := 70000 \<rparr>"

definition list_missing_file_args :: Flags where
  "list_missing_file_args = no_args \<lparr> argListDevs := True, argConfig := ''missing.json'' \<rparr>"

subsection \<open>Facts about the port selection\<close>

lemma exist_loop_iff:
  "exist_loop filters upPort \<longleftrightarrow> PortFilter (uint16 upPort) \<in> set filters"
proof (induction filters)
  case Nil
  show ?case by simp
next
  case (Cons f fs)
  show ?case
  proof (cases f)
    case (IPFilter a)
    with Cons show ?thesis by simp
  next
    case (IPPortFilter a p)
    with Cons show ?thesis by simp
  next
    case (PortFilter p)
    with Cons show ?thesis by auto
  qed
qed

lemma randomize_loop_unfold_stop:
  "\<not> exist_loop filters (49152 + int (Intn (int31 k) 16384)) \<Longrightarrow>
   randomize_loop filters int31 k = Some (49152 + int (Intn (int31 k) 16384))"
  by (subst randomize_loop.simps) simp

lemma randomize_loop_unfold_retry:
  "exist_loop filters (49152 + int (Intn (int31 k) 16384)) \<Longrightarrow>
   randomize_loop filters int31 k = randomize_loop filters int31 (Suc k)"
  by (subst randomize_loop.simps) simp

text \<open>Whatever the loop returns is a port it drew at some round and did not find.\<close>

lemma randomize_loop_Some:
  assumes "randomize_loop filters int31 k = Some p"
  shows "\<exists>j\<ge>k. p = 49152 + int (Intn (int31 j) 16384) \<and> \<not> exist_loop filters p"
proof (rule randomize_loop.raw_induct
    [where P = "\<lambda>fs g i q. \<exists>j\<ge>i. q = 49152 + int (Intn (g j) 16384) \<and> \<not> exist_loop fs q",
      OF _ assms])
  fix f :: "Filter list \<Rightarrow> (nat \<Rightarrow> nat) \<Rightarrow> nat \<Rightarrow> int option"
  fix fs g i q
  assume IH: "\<And>fs g i q. f fs g i = Some q \<Longrightarrow>
                \<exists>j\<ge>i. q = 49152 + int (Intn (g j) 16384) \<and> \<not> exist_loop fs q"
    and body: "(let upPort = 49152 + int (Intn (g i) 16384)
                in if exist_loop fs upPort then f fs g (Suc i) else Some upPort) = Some q"
  show "\<exists>j\<ge>i. q = 49152 + int (Intn (g j) 16384) \<and> \<not> exist_loop fs q"
  proof (cases "exist_loop fs (49152 + int (Intn (g i) 16384))")
    case True
    with body have "f fs g (Suc i) = Some q" by simp
    from IH [OF this] obtain j where "Suc i \<le> j"
      "q = 49152 + int (Intn (g j) 16384)" "\<not> exist_loop fs q" by blast
    then show ?thesis by (intro exI [of _ j]) simp
  next
    case False
    with body have "q = 49152 + int (Intn (g i) 16384)" by simp
    with False show ?thesis by (intro exI [of _ i]) simp
  qed
qed


lemma Intn_16384_range: "Intn raw 16384 < 16384"
  by (simp add: Intn_def)

lemma counting_source_run:
  "randomize_loop [IPFilter [10, 0, 0, 1], PortFilter 49200] counting_source 0 = Some 49201"
proof -
  have "randomize_loop [IPFilter [10, 0, 0, 1], PortFilter 49200] counting_source 0
        = randomize_loop [IPFilter [10, 0, 0, 1], PortFilter 49200] counting_source (Suc 0)"
    by (rule randomize_loop_unfold_retry) (simp add: counting_source_def Intn_def uint16_def)
  also have "\<dots> = Some (49152 + int (Intn (counting_source (Suc 0)) 16384))"
    by (rule randomize_loop_unfold_stop) (simp add: counting_source_def Intn_def uint16_def)
  also have "\<dots> = Some 49201"
    by (simp add: counting_source_def Intn_def)
  finally show ?thesis .
qed



subsection \<open>The selected port\<close>

text \<open>
  C1. The claim: whenever the upstream port is selected by the loop, it differs from the
  port of every ByPort filter and of every ByIPPort filter. The loop compares the drawn port
  with the ports of ByPort filters only: with the single filter ByIPPort(93.184.216.34, 49200)
  and a source whose first draw is 48, the selection returns 49152 + 48 = 49200, the port of
  that filter.
\<close>

theorem C1_ipport_filter_port_selected:
  "randomizeUpPort 0 [IPPortFilter [93, 184, 216, 34] 49200] counting_source = Some 49200"
  by (simp add: randomizeUpPort_def randomize_loop_unfold_stop Intn_def counting_source_def)

text \<open>
  C2. For every filter list that contains the filter ByPort(49200), and every random source,
  the selection of the upstream port (configured port 0) does not return 49200.
\<close>

theorem C2_port_filter_49200_never_selected:
  assumes "PortFilter 49200 \<in> set filters"
  shows "randomizeUpPort 0 filters int31 \<noteq> Some 49200"
proof
  assume "randomizeUpPort 0 filters int31 = Some 49200"
  then have "randomize_loop filters int31 0 = Some 49200"
    by (simp add: randomizeUpPort_def)
  then have "\<not> exist_loop filters 49200"
    by (auto dest: randomize_loop_Some)
  then have "PortFilter (uint16 49200) \<notin> set filters"
    by (simp add: exist_loop_iff)
  with assms show False
    by (simp add: uint16_def)
qed

theorem C2_witness:
  "PortFilter 49200 \<in> set [IPFilter [10, 0, 0, 1], PortFilter 49200]
   \<and> randomizeUpPort 0 [IPFilter [10, 0, 0, 1], PortFilter 49200] counting_source \<noteq> Some 49200"
  using C2_port_filter_49200_never_selected
          [of "[IPFilter [10, 0, 0, 1], PortFilter 49200]" counting_source]
  by simp

text \<open>
  C3. When the configured upstream port is 0, the port that the selection returns lies
  between 49152 and 65535, both included.
\<close>

theorem C3_selected_port_in_range:
  assumes "UpPort cfg = 0"
    and "randomizeUpPort (UpPort cfg) filters int31 = Some p"
  shows "49152 \<le> p \<and> p \<le> 65535"
proof -
  from assms have "randomize_loop filters int31 0 = Some p"
    by (simp add: randomizeUpPort_def)
  then obtain j where "p = 49152 + int (Intn (int31 j) 16384)"
    by (auto dest: randomize_loop_Some)
  moreover have "Intn (int31 j) 16384 < 16384"
    by (rule Intn_16384_range)
  ultimately show ?thesis by simp
qed

theorem C3_witness:
  "UpPort file_cfg = 0
   \<and> randomizeUpPort (UpPort file_cfg) [IPFilter [10, 0, 0, 1], PortFilter 49200] counting_source
       = Some 49201
   \<and> (49152::int) \<le> 49201 \<and> (49201::int) \<le> 65535"
  using C3_selected_port_in_range
          [of file_cfg "[IPFilter [10, 0, 0, 1], PortFilter 49200]" counting_source 49201]
        counting_source_run
  by (simp add: file_cfg_def randomizeUpPort_def)

text \<open>
  A source that never draws a free port keeps the loop running: with the single filter
  ByPort(49152) and draws that are 0 for ever, every round draws 49152 again. No generator of
  random numbers behaves so; the statement on termination below is for the sources that
  draw each value of the range at some round.
\<close>

lemma stuck_source_never_returns:
  "randomizeUpPort 0 [PortFilter 49152] stuck_source = None"
proof -
  have "randomize_loop [PortFilter 49152] stuck_source 0 = None"
  proof (cases "randomize_loop [PortFilter 49152] stuck_source 0")
    case None
    then show ?thesis .
  next
    case (Some p)
    then obtain j where "p = 49152 + int (Intn (stuck_source j) 16384)"
      "\<not> exist_loop [PortFilter 49152] p"
      by (auto dest: randomize_loop_Some)
    then show ?thesis
      by (simp add: stuck_source_def Intn_def uint16_def)
  qed
  then show ?thesis
    by (simp add: randomizeUpPort_def)
qed



subsection \<open>Facts about splitArg\<close>

text \<open>The equation of \<open>Split\<close> rewrites its own right-hand side: it is unfolded by hand.\<close>

declare Split.simps [simp del]

lemma splitArg_loop_map:
  "splitArg_loop result strs = result @ map (\<lambda>str. Trim str '' '') strs"
  by (induction strs arbitrary: result) simp_all

lemma Split_not_Nil: "Split s sep \<noteq> []"
  by (subst Split.simps) simp

lemma join_comma_Cons: "cs \<noteq> [] \<Longrightarrow> join_comma (c # cs) = c @ CHR '','' # join_comma cs"
  by (cases cs) simp_all

lemma takeWhile_tl_dropWhile:
  assumes "sep \<in> set s"
  shows "takeWhile (\<lambda>c. c \<noteq> sep) s @ sep # tl (dropWhile (\<lambda>c. c \<noteq> sep) s) = s"
proof -
  from assms have ne: "dropWhile (\<lambda>c. c \<noteq> sep) s \<noteq> []" by auto
  then have "hd (dropWhile (\<lambda>c. c \<noteq> sep) s) = sep"
    using hd_dropWhile [of "\<lambda>c. c \<noteq> sep" s] by simp
  with ne have "sep # tl (dropWhile (\<lambda>c. c \<noteq> sep) s) = dropWhile (\<lambda>c. c \<noteq> sep) s"
    by (cases "dropWhile (\<lambda>c. c \<noteq> sep) s") simp_all
  then show ?thesis by simp
qed

lemma join_comma_Split: "join_comma (Split s (CHR '','')) = s"
proof (induction s "CHR '',''" rule: Split.induct)
  case (1 s)
  show ?case
  proof (cases "CHR '','' \<in> set s")
    case True
    have "join_comma (Split s (CHR '',''))
          = join_comma (takeWhile (\<lambda>c. c \<noteq> CHR '','') s
                        # Split (tl (dropWhile (\<lambda>c. c \<noteq> CHR '','') s)) (CHR '',''))"
      using True by (subst Split.simps) simp
    also have "\<dots> = takeWhile (\<lambda>c. c \<noteq> CHR '','') s
                     @ CHR '','' # tl (dropWhile (\<lambda>c. c \<noteq> CHR '','') s)"
      using "1" [OF True] by (simp add: join_comma_Cons Split_not_Nil)
    also have "\<dots> = s" using True by (rule takeWhile_tl_dropWhile)
    finally show ?thesis .
  next
    case False
    then show ?thesis by (subst Split.simps) simp
  qed
qed

lemma Split_no_sep: "c \<in> set (Split s sep) \<Longrightarrow> sep \<notin> set c"
proof (induction s sep arbitrary: c rule: Split.induct)
  case (1 s sep)
  show ?case
  proof (cases "sep \<in> set s")
    case True
    from "1.prems" True
    have "c = takeWhile (\<lambda>c. c \<noteq> sep) s \<or> c \<in> set (Split (tl (dropWhile (\<lambda>c. c \<noteq> sep) s)) sep)"
      by (subst (asm) Split.simps) simp
    then show ?thesis
    proof
      assume "c = takeWhile (\<lambda>c. c \<noteq> sep) s"
      then show ?thesis by (auto dest: set_takeWhileD)
    next
      assume "c \<in> set (Split (tl (dropWhile (\<lambda>c. c \<noteq> sep) s)) sep)"
      with "1.IH" [OF True] show ?thesis .
    qed
  next
    case False
    with "1.prems" show ?thesis by (subst (asm) Split.simps) simp
  qed
qed

lemma length_Split: "length (Split s sep) = Suc (length (filter (\<lambda>c. c = sep) s))"
proof (induction s sep rule: Split.induct)
  case (1 s sep)
  show ?case
  proof (cases "sep \<in> set s")
    case True
    have tw: "filter (\<lambda>c. c = sep) (takeWhile (\<lambda>c. c \<noteq> sep) s) = []"
      by (auto simp: filter_empty_conv dest: set_takeWhileD)
    have "length (filter (\<lambda>c. c = sep) s)
          = length (filter (\<lambda>c. c = sep)
                      (takeWhile (\<lambda>c. c \<noteq> sep) s @ sep # tl (dropWhile (\<lambda>c. c \<noteq> sep) s)))"
      by (simp only: takeWhile_tl_dropWhile [OF True])
    also have "\<dots> = Suc (length (filter (\<lambda>c. c = sep) (tl (dropWhile (\<lambda>c. c \<noteq> sep) s))))"
      by (simp only: filter_append tw append_Nil filter.simps if_True refl list.size length_Cons)
    finally have cnt: "length (filter (\<lambda>c. c = sep) s)
               = Suc (length (filter (\<lambda>c. c = sep) (tl (dropWhile (\<lambda>c. c \<noteq> sep) s))))" .
    have "length (Split s sep) = Suc (length (Split (tl (dropWhile (\<lambda>c. c \<noteq> sep) s)) sep))"
      using True by (subst Split.simps) simp
    with "1" [OF True] cnt show ?thesis by simp
  next
    case False
    then have "filter (\<lambda>c. c = sep) s = []"
      by (auto simp: filter_empty_conv)
    with False show ?thesis by (subst Split.simps) simp
  qed
qed

lemma takeWhile_eq_replicate:
  "takeWhile (\<lambda>c. c = x) xs = replicate (length (takeWhile (\<lambda>c. c = x) xs)) x"
proof -
  have "\<forall>y\<in>set (takeWhile (\<lambda>c. c = x) xs). y = x"
    by (auto dest: set_takeWhileD)
  then show ?thesis by (simp add: replicate_length_same)
qed

lemma rev_dropWhile_rev_decomp:
  "rev (dropWhile P (rev xs)) @ rev (takeWhile P (rev xs)) = xs"
proof -
  have "rev (takeWhile P (rev xs) @ dropWhile P (rev xs)) = rev (rev xs)"
    by (simp only: takeWhile_dropWhile_id)
  then show ?thesis
    by (simp only: rev_append rev_rev_ident)
qed

lemma Trim_space_decomp:
  "\<exists>a b. c = replicate a (CHR '' '') @ Trim c '' '' @ replicate b (CHR '' '')"
proof -
  let ?P = "\<lambda>x. x = CHR '' ''"
  let ?d = "dropWhile ?P c"
  have "rev ?d = takeWhile ?P (rev ?d) @ dropWhile ?P (rev ?d)" by simp
  then have "rev (rev ?d) = rev (takeWhile ?P (rev ?d) @ dropWhile ?P (rev ?d))" by simp
  then have d: "?d = rev (dropWhile ?P (rev ?d)) @ rev (takeWhile ?P (rev ?d))"
    by (simp only: rev_rev_ident rev_append)
  have "rev (takeWhile ?P (rev ?d)) = rev (replicate (length (takeWhile ?P (rev ?d))) (CHR '' ''))"
    using takeWhile_eq_replicate [of "CHR '' ''" "rev ?d"] by simp
  then have t: "rev (takeWhile ?P (rev ?d)) = replicate (length (takeWhile ?P (rev ?d))) (CHR '' '')"
    by simp
  have "c = takeWhile ?P c @ ?d" by simp
  then have "c = replicate (length (takeWhile ?P c)) (CHR '' '') @ ?d"
    using takeWhile_eq_replicate [of "CHR '' ''" c] by simp
  with d t have "c = replicate (length (takeWhile ?P c)) (CHR '' '')
                     @ rev (dropWhile ?P (rev ?d))
                     @ replicate (length (takeWhile ?P (rev ?d))) (CHR '' '')"
    by simp
  then have "c = replicate (length (takeWhile ?P c)) (CHR '' '')
                     @ Trim c '' ''
                     @ replicate (length (takeWhile ?P (rev ?d))) (CHR '' '')"
    by (simp add: Trim_def)
  then show ?thesis by blast
qed

lemma Trim_space_ends:
  "Trim c '' '' = [] \<or> (hd (Trim c '' '') \<noteq> CHR '' '' \<and> last (Trim c '' '') \<noteq> CHR '' '')"
proof (cases "Trim c '' '' = []")
  case True
  then show ?thesis by (rule disjI1)
next
  case False
  define d where "d = dropWhile (\<lambda>x. x = CHR '' '') c"
  define e where "e = dropWhile (\<lambda>x. x = CHR '' '') (rev d)"
  have T: "Trim c '' '' = rev e"
    by (simp add: Trim_def d_def e_def)
  from False T have e: "e \<noteq> []" by simp
  then have "hd e \<noteq> CHR '' ''"
    unfolding e_def by (rule hd_dropWhile)
  moreover from e have "last (rev e) = hd e"
    by (simp add: last_rev)
  ultimately have l: "last (Trim c '' '') \<noteq> CHR '' ''"
    by (simp add: T)
  have dec: "rev e @ rev (takeWhile (\<lambda>x. x = CHR '' '') (rev d)) = d"
    unfolding e_def by (rule rev_dropWhile_rev_decomp)
  from e have re: "rev e \<noteq> []" by simp
  then have "hd (rev e @ rev (takeWhile (\<lambda>x. x = CHR '' '') (rev d))) = hd (rev e)"
    by (rule hd_append2)
  then have hd_eq: "hd d = hd (rev e)"
    by (simp only: dec)
  from re dec have "d \<noteq> []"
    by (cases d) auto
  then have "hd d \<noteq> CHR '' ''"
    unfolding d_def by (rule hd_dropWhile)
  with hd_eq have "hd (Trim c '' '') \<noteq> CHR '' ''"
    by (simp add: T)
  with l show ?thesis by blast
qed

text \<open>
  C9. \<open>splitArg\<close> of the empty string is the empty list. For a non-empty string \<open>s\<close>
  there is a list of components, none containing a comma, whose comma-separated
  concatenation is \<open>s\<close> (so there is one component more than there are commas, empty
  components between adjacent commas included); \<open>splitArg s\<close> has the same length, and
  its \<open>i\<close>-th entry is the \<open>i\<close>-th component without its leading and trailing spaces:
  the component is that entry with spaces before and after it, and the entry neither begins
  nor ends with a space.
\<close>

theorem C9_splitArg_components:
  "splitArg [] = [] \<and>
   (s \<noteq> [] \<longrightarrow>
     (\<exists>comps. join_comma comps = s
        \<and> (\<forall>c\<in>set comps. CHR '','' \<notin> set c)
        \<and> length comps = Suc (length (filter (\<lambda>c. c = CHR '','') s))
        \<and> length (splitArg s) = length comps
        \<and> (\<forall>i<length comps.
              (\<exists>a b. comps ! i = replicate a (CHR '' '') @ splitArg s ! i @ replicate b (CHR '' ''))
              \<and> (splitArg s ! i = []
                  \<or> (hd (splitArg s ! i) \<noteq> CHR '' '' \<and> last (splitArg s ! i) \<noteq> CHR '' '')))))"
proof (intro conjI impI)
  show "splitArg [] = []" by (simp add: splitArg_def)
next
  assume s: "s \<noteq> []"
  let ?comps = "Split s (CHR '','')"
  have res: "splitArg s = map (\<lambda>str. Trim str '' '') ?comps"
    using s by (simp add: splitArg_def splitArg_loop_map)
  have 1: "join_comma ?comps = s" by (rule join_comma_Split)
  have 2: "\<forall>c\<in>set ?comps. CHR '','' \<notin> set c" by (blast dest: Split_no_sep)
  have 3: "length ?comps = Suc (length (filter (\<lambda>c. c = CHR '','') s))" by (rule length_Split)
  have 4: "length (splitArg s) = length ?comps" by (simp add: res)
  have 5: "\<forall>i<length ?comps.
              (\<exists>a b. ?comps ! i = replicate a (CHR '' '') @ splitArg s ! i @ replicate b (CHR '' ''))
              \<and> (splitArg s ! i = []
                  \<or> (hd (splitArg s ! i) \<noteq> CHR '' '' \<and> last (splitArg s ! i) \<noteq> CHR '' ''))"
  proof (intro allI impI)
    fix i assume "i < length ?comps"
    then have "splitArg s ! i = Trim (?comps ! i) '' ''" by (simp add: res)
    then show "(\<exists>a b. ?comps ! i = replicate a (CHR '' '') @ splitArg s ! i @ replicate b (CHR '' ''))
              \<and> (splitArg s ! i = []
                  \<or> (hd (splitArg s ! i) \<noteq> CHR '' '' \<and> last (splitArg s ! i) \<noteq> CHR '' ''))"
      using Trim_space_decomp [of "?comps ! i"] Trim_space_ends [of "?comps ! i"] by simp
  qed
  from 1 2 3 4 5 show "\<exists>comps. join_comma comps = s
        \<and> (\<forall>c\<in>set comps. CHR '','' \<notin> set c)
        \<and> length comps = Suc (length (filter (\<lambda>c. c = CHR '','') s))
        \<and> length (splitArg s) = length comps
        \<and> (\<forall>i<length comps.
              (\<exists>a b. comps ! i = replicate a (CHR '' '') @ splitArg s ! i @ replicate b (CHR '' ''))
              \<and> (splitArg s ! i = []
                  \<or> (hd (splitArg s ! i) \<noteq> CHR '' '' \<and> last (splitArg s ! i) \<noteq> CHR '' '')))"
    by (intro exI [of _ ?comps]) simp
qed

theorem C9_witness:
  "splitArg '' eth0, eth1 ,,  lo  '' = [''eth0'', ''eth1'', [], ''lo'']
   \<and> (\<exists>comps. join_comma comps = '' eth0, eth1 ,,  lo  ''
        \<and> (\<forall>c\<in>set comps. CHR '','' \<notin> set c)
        \<and> length comps = Suc (length (filter (\<lambda>c. c = CHR '','') '' eth0, eth1 ,,  lo  ''))
        \<and> length (splitArg '' eth0, eth1 ,,  lo  '') = length comps
        \<and> (\<forall>i<length comps.
              (\<exists>a b. comps ! i = replicate a (CHR '' '') @ splitArg '' eth0, eth1 ,,  lo  '' ! i
                                    @ replicate b (CHR '' ''))
              \<and> (splitArg '' eth0, eth1 ,,  lo  '' ! i = []
                  \<or> (hd (splitArg '' eth0, eth1 ,,  lo  '' ! i) \<noteq> CHR '' ''
                      \<and> last (splitArg '' eth0, eth1 ,,  lo  '' ! i) \<noteq> CHR '' ''))))"
proof
  show "splitArg '' eth0, eth1 ,,  lo  '' = [''eth0'', ''eth1'', [], ''lo'']"
    by (simp add: splitArg_def Split.simps Trim_def)
next
  have "'' eth0, eth1 ,,  lo  '' \<noteq> []" by simp
  with C9_splitArg_components [of "'' eth0, eth1 ,,  lo  ''"]
  show "\<exists>comps. join_comma comps = '' eth0, eth1 ,,  lo  ''
        \<and> (\<forall>c\<in>set comps. CHR '','' \<notin> set c)
        \<and> length comps = Suc (length (filter (\<lambda>c. c = CHR '','') '' eth0, eth1 ,,  lo  ''))
        \<and> length (splitArg '' eth0, eth1 ,,  lo  '') = length comps
        \<and> (\<forall>i<length comps.
              (\<exists>a b. comps ! i = replicate a (CHR '' '') @ splitArg '' eth0, eth1 ,,  lo  '' ! i
                                    @ replicate b (CHR '' ''))
              \<and> (splitArg '' eth0, eth1 ,,  lo  '' ! i = []
                  \<or> (hd (splitArg '' eth0, eth1 ,,  lo  '' ! i) \<noteq> CHR '' ''
                      \<and> last (splitArg '' eth0, eth1 ,,  lo  '' ! i) \<noteq> CHR '' '')))"
    by (elim conjE) (erule (1) mp)
qed

subsection \<open>Facts about main; errors before the devices\<close>

lemma main_list_mode:
  "argListDevs args \<Longrightarrow> loadConfig env args = Inr cfg \<Longrightarrow>
   main env args = Some (listDevices env [SetVerbose (Verbose cfg)])"
  by (simp add: main_def)

lemma main_proxy_mode:
  "\<not> argListDevs args \<Longrightarrow> loadConfig env args = Inr cfg \<Longrightarrow>
   main env args = proxy env cfg [SetVerbose (Verbose cfg)]"
  by (simp add: main_def)

lemma main_config_fails:
  "loadConfig env args = Inl msg \<Longrightarrow> main env args = Some ([Fatal msg], 1)"
  by (simp add: main_def Fatalln_def)

lemma loadConfig_Inl:
  "loadConfig env args = Inl msg \<Longrightarrow> msg \<noteq> []"
  by (auto simp: loadConfig_def split: if_splits sum.splits)

lemma parseFilters_malformed:
  "list_ex (\<lambda>s. isl (pcap_ParseFilter env s)) strs \<Longrightarrow> isl (parseFilters env filters strs)"
proof (induction strs arbitrary: filters)
  case Nil
  then show ?case by simp
next
  case (Cons s strs)
  show ?case
  proof (cases "pcap_ParseFilter env s")
    case (Inl err)
    then show ?thesis by simp
  next
    case (Inr f)
    with Cons.prems have "list_ex (\<lambda>s. isl (pcap_ParseFilter env s)) strs" by simp
    from Cons.IH [OF this] Inr show ?thesis by simp
  qed
qed

lemma parseFilters_Inl:
  "parseFilters env filters strs = Inl msg \<Longrightarrow> msg \<noteq> []"
proof (induction strs arbitrary: filters)
  case Nil
  then show ?case by simp
next
  case (Cons s strs)
  then show ?case by (cases "pcap_ParseFilter env s") auto
qed

lemma verifyParameters_Inl:
  "verifyParameters env cfg = Inl msg \<Longrightarrow> msg \<noteq> []"
  by (auto simp: verifyParameters_def split: if_splits sum.splits dest: parseFilters_Inl)

lemma verifyParameters_config_error:
  assumes "config_error cfg"
  shows "isl (verifyParameters env cfg)"
proof (cases "parseFilters env [] (Filters cfg)")
  case (Inl msg)
  then show ?thesis by (simp add: verifyParameters_def)
next
  case (Inr filters)
  with assms show ?thesis by (auto simp: verifyParameters_def config_error_def)
qed

lemma verifyParameters_malformed:
  assumes "list_ex (\<lambda>s. isl (pcap_ParseFilter env s)) (Filters cfg)"
  shows "isl (verifyParameters env cfg)"
proof -
  from assms have "isl (parseFilters env [] (Filters cfg))"
    by (rule parseFilters_malformed)
  then obtain msg where "parseFilters env [] (Filters cfg) = Inl msg"
    by (cases "parseFilters env [] (Filters cfg)") simp_all
  then show ?thesis by (simp add: verifyParameters_def)
qed

lemma proxy_verify_fails:
  "verifyParameters env cfg = Inl msg \<Longrightarrow> proxy env cfg tr = Some (tr @ [Fatal msg], 1)"
  by (simp add: proxy_def Fatalln_def)

text \<open>A failure before the devices: the parameters, the server address or the method.\<close>

lemma proxy_early_fatal:
  assumes "isl (verifyParameters env cfg)
           \<or> (port_selection_returns env cfg
               \<and> (isl (pcap_ParseIPPort env (Server cfg))
                   \<or> isl (crypto_Parse env (Method cfg) (Password cfg))))"
  shows "\<exists>msg. msg \<noteq> [] \<and> proxy env cfg tr = Some (tr @ [Fatal msg], 1)"
proof (cases "verifyParameters env cfg")
  case (Inl msg)
  then show ?thesis
    by (auto simp: proxy_verify_fails dest: verifyParameters_Inl)
next
  case (Inr filters)
  with assms have ret: "randomizeUpPort (UpPort cfg) filters (rand_Int31 env) \<noteq> None"
    and err: "isl (pcap_ParseIPPort env (Server cfg))
              \<or> isl (crypto_Parse env (Method cfg) (Password cfg))"
    by (simp_all add: port_selection_returns_def)
  from ret obtain upPort where up: "randomizeUpPort (UpPort cfg) filters (rand_Int31 env) = Some upPort"
    by blast
  show ?thesis
  proof (cases "pcap_ParseIPPort env (Server cfg)")
    case (Inl e)
    with Inr up show ?thesis by (simp add: proxy_def Fatalln_def)
  next
    case server: (Inr serverIPPort)
    with err obtain e where "crypto_Parse env (Method cfg) (Password cfg) = Inl e"
      by (cases "crypto_Parse env (Method cfg) (Password cfg)") simp_all
    with Inr up server show ?thesis by (simp add: proxy_def Fatalln_def)
  qed
qed

lemma fatal_before_devices_early:
  "fatal_before_devices (Some ([SetVerbose v, Fatal msg], 1))"
  by (simp add: fatal_before_devices_def)


lemma example_list_run:
  "main example_env list_args
   = Some ([SetVerbose False, Info listDevices_banner, FindAllDevs_call,
            Info (''  eth0'' @ [CHR 0x0A]), Info (''  lo'' @ [CHR 0x0A])], 0)"
  by (simp add: main_def loadConfig_def listDevices_def example_env_def list_args_def no_args_def
      splitArg_def)

text \<open>
  C4. The claim: for every configuration with an empty filter list, an empty server string or
  an upstream port outside \<open>[0, 65535]\<close>, the client reports a fatal error and exits with a
  non-zero status before any device is looked up or opened. With \<^verbatim>\<open>-list-devices\<close> the
  exclusive command of lines 72--82 runs before the parameters are verified: for the command
  line \<^verbatim>\<open>-list-devices\<close> alone the filter list and the server are empty, yet the devices
  are enumerated and printed and the process exits with status 0.
\<close>

theorem C4_list_devices_counterexample:
  "argListDevs list_args
   \<and> loadConfig example_env list_args
       = Inr \<lparr> ListenDevs = [], UpDev = [], Method = ''plain'', Password = [], Verbose = False,
               UpPort = 0, Filters = [], Server = [] \<rparr>
   \<and> main example_env list_args
       = Some ([SetVerbose False, Info listDevices_banner, FindAllDevs_call,
                Info (''  eth0'' @ [CHR 0x0A]), Info (''  lo'' @ [CHR 0x0A])], 0)
   \<and> \<not> fatal_before_devices (main example_env list_args)"
proof -
  have "loadConfig example_env list_args
        = Inr \<lparr> ListenDevs = [], UpDev = [], Method = ''plain'', Password = [], Verbose = False,
                UpPort = 0, Filters = [], Server = [] \<rparr>"
    by (simp add: loadConfig_def list_args_def no_args_def splitArg_def)
  moreover have "argListDevs list_args"
    by (simp add: list_args_def no_args_def)
  moreover have "\<not> fatal_before_devices (main example_env list_args)"
    by (simp add: example_list_run fatal_before_devices_def)
  ultimately show ?thesis
    using example_list_run by simp
qed

text \<open>
  C4, amended. When \<^verbatim>\<open>-list-devices\<close> is not given: for every configuration with an empty
  filter list, an empty server string or an upstream port outside \<open>[0, 65535]\<close>, the run
  ends in a fatal report with a non-zero exit status, and no device was looked up or opened.
\<close>

theorem C4_config_error_is_fatal:
  assumes "\<not> argListDevs args"
    and "loadConfig env args = Inr cfg"
    and "Filters cfg = [] \<or> Server cfg = [] \<or> UpPort cfg < 0 \<or> 65535 < UpPort cfg"
  shows "fatal_before_devices (main env args)"
proof -
  from assms(3) have "config_error cfg"
    by (simp add: config_error_def)
  then have "isl (verifyParameters env cfg)"
    by (rule verifyParameters_config_error)
  then obtain msg where "proxy env cfg [SetVerbose (Verbose cfg)]
                         = Some ([SetVerbose (Verbose cfg)] @ [Fatal msg], 1)"
    using proxy_early_fatal [of env cfg "[SetVerbose (Verbose cfg)]"] by blast
  with assms(1,2) show ?thesis
    by (simp add: main_proxy_mode fatal_before_devices_early)
qed

theorem C4_witness:
  "fatal_before_devices (main example_env no_args)
   \<and> main example_env no_args
       = Some ([SetVerbose False, Fatal ''Please provide filters by -f [filters].''], 1)"
proof -
  have cfg: "loadConfig example_env no_args
        = Inr \<lparr> ListenDevs = [], UpDev = [], Method = ''plain'', Password = [], Verbose = False,
                UpPort = 0, Filters = [], Server = [] \<rparr>"
    by (simp add: loadConfig_def no_args_def splitArg_def)
  have flag: "\<not> argListDevs no_args"
    by (simp add: no_args_def)
  from C4_config_error_is_fatal [OF flag cfg]
  have "fatal_before_devices (main example_env no_args)" by simp
  moreover have "main example_env no_args
       = Some ([SetVerbose False, Fatal ''Please provide filters by -f [filters].''], 1)"
    by (simp add: main_proxy_mode [OF flag cfg] proxy_def verifyParameters_def Fatalln_def)
  ultimately show ?thesis by simp
qed

text \<open>
  C5. The claim: for every configuration with a malformed filter string or an unknown
  encryption method, the client reports a fatal error and exits with a non-zero status before
  any device is looked up or opened. With \<^verbatim>\<open>-list-devices\<close> neither the filters nor the
  method are parsed: for \<^verbatim>\<open>-list-devices -f bogus -method rot13\<close> the devices are
  enumerated and printed and the process exits with status 0.
\<close>

theorem C5_list_devices_counterexample:
  "argListDevs list_bad_args
   \<and> loadConfig example_env list_bad_args
       = Inr \<lparr> ListenDevs = [], UpDev = [], Method = ''rot13'', Password = [], Verbose = False,
               UpPort = 0, Filters = [''bogus''], Server = ''203.0.113.5:12345'' \<rparr>
   \<and> pcap_ParseFilter example_env ''bogus'' = Inl ''invalid filter''
   \<and> crypto_Parse example_env ''rot13'' [] = Inl ''method not support''
   \<and> main example_env list_bad_args
       = Some ([SetVerbose False, Info listDevices_banner, FindAllDevs_call,
                Info (''  eth0'' @ [CHR 0x0A]), Info (''  lo'' @ [CHR 0x0A])], 0)"
proof -
  have "loadConfig example_env list_bad_args
        = Inr \<lparr> ListenDevs = [], UpDev = [], Method = ''rot13'', Password = [], Verbose = False,
                UpPort = 0, Filters = [''bogus''], Server = ''203.0.113.5:12345'' \<rparr>"
    by (simp add: loadConfig_def list_bad_args_def no_args_def splitArg_def Split.simps Trim_def)
  moreover have "argListDevs list_bad_args"
    by (simp add: list_bad_args_def no_args_def)
  moreover have "pcap_ParseFilter example_env ''bogus'' = Inl ''invalid filter''"
    by (simp add: example_env_def)
  moreover have "crypto_Parse example_env ''rot13'' [] = Inl ''method not support''"
    by (simp add: example_env_def)
  ultimately show ?thesis
    by (simp add: main_def listDevices_def example_env_def)
qed

text \<open>
  C5, amended. When \<^verbatim>\<open>-list-devices\<close> is not given: for every configuration with a
  malformed filter string, and for every configuration with an unknown encryption method
  for which the port selection (which runs before the method is parsed) returns, the run
  ends in a fatal report with a non-zero exit status, and no device was looked up or opened.
\<close>

theorem C5_resolution_error_is_fatal:
  assumes "\<not> argListDevs args"
    and "loadConfig env args = Inr cfg"
    and "(\<exists>s\<in>set (Filters cfg). isl (pcap_ParseFilter env s))
         \<or> (isl (crypto_Parse env (Method cfg) (Password cfg)) \<and> port_selection_returns env cfg)"
  shows "fatal_before_devices (main env args)"
proof -
  from assms(3)
  have "isl (verifyParameters env cfg)
        \<or> (port_selection_returns env cfg
            \<and> (isl (pcap_ParseIPPort env (Server cfg))
                \<or> isl (crypto_Parse env (Method cfg) (Password cfg))))"
  proof
    assume "\<exists>s\<in>set (Filters cfg). isl (pcap_ParseFilter env s)"
    then have "list_ex (\<lambda>s. isl (pcap_ParseFilter env s)) (Filters cfg)"
      by (simp add: list_ex_iff)
    then have "isl (verifyParameters env cfg)"
      by (rule verifyParameters_malformed)
    then show ?thesis ..
  next
    assume "isl (crypto_Parse env (Method cfg) (Password cfg)) \<and> port_selection_returns env cfg"
    then show ?thesis by simp
  qed
  then obtain msg where "proxy env cfg [SetVerbose (Verbose cfg)]
                         = Some ([SetVerbose (Verbose cfg)] @ [Fatal msg], 1)"
    using proxy_early_fatal [of env cfg "[SetVerbose (Verbose cfg)]"] by blast
  with assms(1,2) show ?thesis
    by (simp add: main_proxy_mode fatal_before_devices_early)
qed

lemma unknown_method_cfg:
  "loadConfig example_env unknown_method_args
   = Inr \<lparr> ListenDevs = [], UpDev = [], Method = ''rot13'', Password = [], Verbose = False,
           UpPort = 0, Filters = ['':49200''], Server = ''203.0.113.5:12345'' \<rparr>"
  by (simp add: loadConfig_def unknown_method_args_def no_args_def splitArg_def Split.simps Trim_def)

lemma counting_source_run_single:
  "randomize_loop [PortFilter 49200] counting_source 0 = Some 49201"
proof -
  have "randomize_loop [PortFilter 49200] counting_source 0
        = randomize_loop [PortFilter 49200] counting_source (Suc 0)"
    by (rule randomize_loop_unfold_retry) (simp add: counting_source_def Intn_def uint16_def)
  also have "\<dots> = Some (49152 + int (Intn (counting_source (Suc 0)) 16384))"
    by (rule randomize_loop_unfold_stop) (simp add: counting_source_def Intn_def uint16_def)
  also have "\<dots> = Some 49201"
    by (simp add: counting_source_def Intn_def)
  finally show ?thesis .
qed

theorem C5_witness:
  "fatal_before_devices (main example_env unknown_method_args)"
proof -
  let ?cfg = "\<lparr> ListenDevs = [], UpDev = [], Method = ''rot13'', Password = [], Verbose = False,
                UpPort = 0, Filters = ['':49200''], Server = ''203.0.113.5:12345'' \<rparr>"
  have flag: "\<not> argListDevs unknown_method_args"
    by (simp add: unknown_method_args_def no_args_def)
  have verify: "verifyParameters example_env ?cfg = Inr [PortFilter 49200]"
    by (simp add: verifyParameters_def example_env_def)
  have "rand_Int31 example_env = counting_source"
    by (simp add: example_env_def)
  then have "randomizeUpPort (UpPort ?cfg) [PortFilter 49200] (rand_Int31 example_env) = Some 49201"
    by (simp add: randomizeUpPort_def counting_source_run_single)
  then have "port_selection_returns example_env ?cfg"
    by (simp add: port_selection_returns_def verify)
  moreover have "isl (crypto_Parse example_env (Method ?cfg) (Password ?cfg))"
    by (simp add: example_env_def)
  ultimately show ?thesis
    using C5_resolution_error_is_fatal [OF flag unknown_method_cfg] by blast
qed

subsection \<open>The exclusive command and the configuration file\<close>

text \<open>
  C8. The claim: with \<^verbatim>\<open>-list-devices\<close> the device listing runs and the process exits 0
  before any configuration is validated. The listing does run before the validation, but the
  exit status is that of the enumeration: when \<^verbatim>\<open>pcap.FindAllDevs\<close> returns an error,
  line 76 reports it as fatal and the process exits with a non-zero status.
\<close>

theorem C8_enumeration_fails_counterexample:
  "argListDevs list_args
   \<and> main no_devices_env list_args
       = Some ([SetVerbose False, Info listDevices_banner, FindAllDevs_call,
                Fatal ''list devices: permission denied''], 1)"
  by (simp add: main_def loadConfig_def listDevices_def Fatalln_def no_devices_env_def
      example_env_def list_args_def no_args_def splitArg_def)

text \<open>
  C8, amended. When \<^verbatim>\<open>-list-devices\<close> is given and the configuration was obtained (no
  \<^verbatim>\<open>-c\<close> file, or one that parses), the run is the device listing and nothing else: it
  exits 0 with the devices printed when the enumeration succeeds, and with the fatal report
  ``list devices'' when it fails. Of the configuration only \<^verbatim>\<open>Verbose\<close> is read: missing
  filters, a missing server, an out-of-range port or a malformed filter string change nothing.
\<close>

theorem C8_list_devices_before_validation:
  assumes "argListDevs args"
    and "loadConfig env args = Inr cfg"
  shows "main env args
         = (case pcap_FindAllDevs env of
              Inl err \<Rightarrow>
                Some ([SetVerbose (Verbose cfg), Info listDevices_banner, FindAllDevs_call,
                       Fatal (''list devices: '' @ err)], 1)
            | Inr devs \<Rightarrow>
                Some ([SetVerbose (Verbose cfg), Info listDevices_banner, FindAllDevs_call]
                      @ map (\<lambda>dev. Info (''  '' @ Device_String env dev @ [CHR 0x0A])) devs, 0))"
  using assms
  by (simp add: main_list_mode listDevices_def Fatalln_def split: sum.split)

lemma list_bad_cfg:
  "loadConfig example_env list_bad_args
   = Inr \<lparr> ListenDevs = [], UpDev = [], Method = ''rot13'', Password = [], Verbose = False,
           UpPort = 0, Filters = [''bogus''], Server = ''203.0.113.5:12345'' \<rparr>"
  by (simp add: loadConfig_def list_bad_args_def no_args_def splitArg_def Split.simps Trim_def)

theorem C8_witness:
  "main example_env list_bad_args
   = Some ([SetVerbose False, Info listDevices_banner, FindAllDevs_call,
            Info (''  eth0'' @ [CHR 0x0A]), Info (''  lo'' @ [CHR 0x0A])], 0)"
proof -
  have flag: "argListDevs list_bad_args"
    by (simp add: list_bad_args_def no_args_def)
  have "pcap_FindAllDevs example_env = Inr [''eth0'', ''lo'']"
    and "Device_String example_env = (\<lambda>dev. dev)"
    by (simp_all add: example_env_def)
  with C8_list_devices_before_validation [OF flag list_bad_cfg]
  show ?thesis by simp
qed

text \<open>
  C10. When \<^verbatim>\<open>-c\<close> names a configuration file that parses, the configuration is the one
  of the file, and the run is the same whatever the flags for listen devices, upstream
  device, method, password, verbosity, upstream port, filters and server are set to.
\<close>

theorem C10_config_file_overrides_flags:
  assumes "argConfig args \<noteq> []"
    and "config_ParseFile env (argConfig args) = Inr cfg"
  shows "loadConfig env (args \<lparr> argListenDevs := listenDevs, argUpDev := upDev,
                               argMethod := method, argPassword := password,
                               argVerbose := verbose, argUpPort := upPort,
                               argFilters := filters, argServer := server \<rparr>) = Inr cfg
         \<and> main env (args \<lparr> argListenDevs := listenDevs, argUpDev := upDev,
                             argMethod := method, argPassword := password,
                             argVerbose := verbose, argUpPort := upPort,
                             argFilters := filters, argServer := server \<rparr>)
             = main env args"
  using assms by (simp add: main_def loadConfig_def)

theorem C10_witness:
  "loadConfig example_env file_and_inline_args = Inr file_cfg
   \<and> main example_env file_and_inline_args = main example_env file_args"
proof -
  have eq: "file_and_inline_args
        = file_args \<lparr> argListenDevs := ''wlan0'', argUpDev := ''wlan1'', argMethod := ''rot13'',
                      argPassword := ''secret'', argVerbose := True, argUpPort := 70000,
                      argFilters := ''bogus'', argServer := ''nowhere'' \<rparr>"
    by (simp add: file_and_inline_args_def file_args_def)
  have name: "argConfig file_args \<noteq> []"
    by (simp add: file_args_def no_args_def)
  have parse: "config_ParseFile example_env (argConfig file_args) = Inr file_cfg"
    by (simp add: file_args_def no_args_def example_env_def)
  from C10_config_file_overrides_flags [OF name parse] show ?thesis
    by (simp only: eq)
qed


subsection \<open>The exit status\<close>

lemma is_empty_Fatal_is_Fatal: "is_empty_Fatal e \<Longrightarrow> is_Fatal e"
  by (cases e) simp_all

lemma no_Fatal_no_empty_Fatal:
  "\<not> list_ex is_Fatal tr \<Longrightarrow> \<not> list_ex is_empty_Fatal tr"
  by (auto simp: list_ex_iff dest: is_empty_Fatal_is_Fatal)

lemma exit_discipline_Fatalln:
  "\<not> list_ex is_Fatal tr \<Longrightarrow> msg \<noteq> [] \<Longrightarrow> exit_discipline (Fatalln msg tr)"
  by (simp add: exit_discipline_def Fatalln_def no_Fatal_no_empty_Fatal)

lemma exit_discipline_return:
  "\<not> list_ex is_Fatal tr \<Longrightarrow> exit_discipline (tr, 0)"
  by (simp add: exit_discipline_def no_Fatal_no_empty_Fatal)

lemma no_Fatal_map_Info: "\<not> list_ex is_Fatal (map (\<lambda>x. Info (f x)) xs)"
  by (simp add: list_ex_iff)

lemma exit_discipline_listDevices:
  assumes "\<not> list_ex is_Fatal tr"
  shows "exit_discipline (listDevices env tr)"
proof (cases "pcap_FindAllDevs env")
  case (Inl err)
  with assms show ?thesis
    by (simp add: listDevices_def exit_discipline_Fatalln)
next
  case (Inr devs)
  have "\<not> list_ex is_Fatal (tr @ [Info listDevices_banner, FindAllDevs_call]
            @ map (\<lambda>dev. Info (''  '' @ Device_String env dev @ [CHR 0x0A])) devs)"
    using assms by (auto simp: list_ex_iff)
  then have "exit_discipline (tr @ [Info listDevices_banner, FindAllDevs_call]
            @ map (\<lambda>dev. Info (''  '' @ Device_String env dev @ [CHR 0x0A])) devs, 0)"
    by (rule exit_discipline_return)
  with Inr show ?thesis
    by (simp add: listDevices_def)
qed

lemma exit_discipline_openClient:
  assumes "\<not> list_ex is_Fatal tr"
  shows "exit_discipline (openClient env cfg filters upPort serverIPPort c tr)"
proof -
  let ?tr1 = "tr @ [FindListenDevs_call (ListenDevs cfg)]"
  let ?tr2 = "?tr1 @ [FindUpstreamDevAndGatewayDev_call (UpDev cfg)]"
  from assms have 1: "\<not> list_ex is_Fatal ?tr1" by simp
  from assms have 2: "\<not> list_ex is_Fatal ?tr2" by simp
  have 3: "\<not> list_ex is_Fatal (?tr2 @ [Open_call p])" for p :: "('a, 'b) Client"
    using assms by simp
  show ?thesis
    unfolding openClient_def Let_def
    by (auto split: sum.split option.split prod.split
        intro!: exit_discipline_Fatalln exit_discipline_return 1 2 3 [simplified] simp: assms)
qed

lemma no_Fatal_proxyInfo:
  "\<not> list_ex is_Fatal (proxyInfo env filters upPort serverIPPort)"
  by (simp add: proxyInfo_def list_ex_iff)

lemma exit_discipline_proxy:
  assumes "\<not> list_ex is_Fatal tr"
    and "proxy env cfg tr = Some r"
  shows "exit_discipline r"
proof (cases "verifyParameters env cfg")
  case (Inl msg)
  then have "msg \<noteq> []" by (rule verifyParameters_Inl)
  with assms Inl show ?thesis
    by (auto simp: proxy_def intro: exit_discipline_Fatalln)
next
  case (Inr filters)
  with assms(2) obtain upPort where
    up: "randomizeUpPort (UpPort cfg) filters (rand_Int31 env) = Some upPort"
    by (cases "randomizeUpPort (UpPort cfg) filters (rand_Int31 env)") (simp_all add: proxy_def)
  show ?thesis
  proof (cases "pcap_ParseIPPort env (Server cfg)")
    case (Inl e)
    with assms Inr up show ?thesis
      by (auto simp: proxy_def intro: exit_discipline_Fatalln)
  next
    case server: (Inr serverIPPort)
    show ?thesis
    proof (cases "crypto_Parse env (Method cfg) (Password cfg)")
      case (Inl e)
      with assms Inr up server show ?thesis
        by (auto simp: proxy_def intro: exit_discipline_Fatalln)
    next
      case crypto: (Inr c)
      from assms(1) have "\<not> list_ex is_Fatal (tr @ proxyInfo env filters upPort serverIPPort)"
        using no_Fatal_proxyInfo [of env filters upPort serverIPPort] by simp
      then have "exit_discipline (openClient env cfg filters upPort serverIPPort c
                                    (tr @ proxyInfo env filters upPort serverIPPort))"
        by (rule exit_discipline_openClient)
      with assms(2) Inr up server crypto show ?thesis
        by (simp add: proxy_def)
    qed
  qed
qed

lemma exit_discipline_main:
  assumes "main env args = Some r"
  shows "exit_discipline r"
proof (cases "loadConfig env args")
  case (Inl msg)
  then have "msg \<noteq> []" by (rule loadConfig_Inl)
  then have "exit_discipline (Fatalln msg [])"
    by (intro exit_discipline_Fatalln) simp_all
  with assms Inl show ?thesis by (auto simp: main_def)
next
  case (Inr cfg)
  have start: "\<not> list_ex is_Fatal [SetVerbose (Verbose cfg)]" by simp
  show ?thesis
  proof (cases "argListDevs args")
    case True
    with assms Inr have "r = listDevices env [SetVerbose (Verbose cfg)]"
      by (simp add: main_list_mode)
    with start show ?thesis by (simp add: exit_discipline_listDevices)
  next
    case False
    with assms Inr have "proxy env cfg [SetVerbose (Verbose cfg)] = Some r"
      by (simp add: main_proxy_mode)
    with start show ?thesis by (rule exit_discipline_proxy)
  qed
qed


lemma openClient_device_error:
  assumes "(case pcap_FindListenDevs env (ListenDevs cfg) of
              Inl err \<Rightarrow> True
            | Inr listenDevs \<Rightarrow> listenDevs = [])
           \<or> (case pcap_FindUpstreamDevAndGatewayDev env (UpDev cfg) of
                 Inl err \<Rightarrow> True
               | Inr (upDev, gatewayDev) \<Rightarrow> upDev = None \<or> gatewayDev = None)"
  shows "snd (openClient env cfg filters upPort serverIPPort c tr) = 1"
  using assms unfolding openClient_def Let_def Fatalln_def
  by (auto split: sum.splits option.splits prod.splits)

lemma proxy_error_status:
  assumes ret: "port_selection_returns env cfg"
    and err: "config_error cfg \<or> resolution_error env cfg"
  shows "\<exists>tr'. proxy env cfg tr = Some (tr', 1)"
proof (cases "verifyParameters env cfg")
  case (Inl msg)
  then show ?thesis by (simp add: proxy_verify_fails)
next
  case (Inr filters)
  then have ok: "\<not> isl (verifyParameters env cfg)" by simp
  from ok have no_cfg: "\<not> config_error cfg"
    by (blast dest: verifyParameters_config_error)
  from ok have no_malformed: "\<not> list_ex (\<lambda>s. isl (pcap_ParseFilter env s)) (Filters cfg)"
    by (blast dest: verifyParameters_malformed)
  from ret Inr obtain p where up: "randomizeUpPort (UpPort cfg) filters (rand_Int31 env) = Some p"
    by (auto simp: port_selection_returns_def)
  show ?thesis
  proof (cases "isl (pcap_ParseIPPort env (Server cfg))
                \<or> isl (crypto_Parse env (Method cfg) (Password cfg))")
    case True
    with ret show ?thesis
      using proxy_early_fatal [of env cfg tr] by blast
  next
    case False
    then obtain serverIPPort c where
      server: "pcap_ParseIPPort env (Server cfg) = Inr serverIPPort"
      and crypto: "crypto_Parse env (Method cfg) (Password cfg) = Inr c"
      by (cases "pcap_ParseIPPort env (Server cfg)";
          cases "crypto_Parse env (Method cfg) (Password cfg)") simp_all
    from err no_cfg no_malformed server crypto
    have "(case pcap_FindListenDevs env (ListenDevs cfg) of
              Inl err \<Rightarrow> True
            | Inr listenDevs \<Rightarrow> listenDevs = [])
           \<or> (case pcap_FindUpstreamDevAndGatewayDev env (UpDev cfg) of
                 Inl err \<Rightarrow> True
               | Inr (upDev, gatewayDev) \<Rightarrow> upDev = None \<or> gatewayDev = None)"
      by (simp add: resolution_error_def)
    then have "snd (openClient env cfg filters p serverIPPort c
                      (tr @ proxyInfo env filters p serverIPPort)) = 1"
      by (rule openClient_device_error)
    moreover have "proxy env cfg tr
          = Some (openClient env cfg filters p serverIPPort c
                    (tr @ proxyInfo env filters p serverIPPort))"
      using Inr up server crypto by (simp add: proxy_def)
    ultimately show ?thesis
      by (cases "openClient env cfg filters p serverIPPort c
                   (tr @ proxyInfo env filters p serverIPPort)") simp
  qed
qed

lemma list_mode_enumeration_reached:
  assumes "argListDevs args"
    and "main env args = Some (tr, st)"
    and "FindAllDevs_call \<in> set tr"
  shows "\<exists>cfg. loadConfig env args = Inr cfg"
proof (cases "loadConfig env args")
  case (Inl msg)
  with assms(2) have "tr = [Fatal msg]"
    by (simp add: main_config_fails)
  with assms(3) show ?thesis by simp
next
  case (Inr cfg)
  then show ?thesis by simp
qed

lemma list_mode_success:
  assumes "argListDevs args"
    and "loadConfig env args = Inr cfg"
    and "pcap_FindAllDevs env = Inr devs"
  shows "main env args
         = Some ([SetVerbose (Verbose cfg), Info listDevices_banner, FindAllDevs_call]
                 @ map (\<lambda>dev. Info (''  '' @ Device_String env dev @ [CHR 0x0A])) devs, 0)"
  using assms by (simp add: main_list_mode listDevices_def)

lemma list_mode_failure:
  assumes "argListDevs args"
    and "loadConfig env args = Inr cfg"
    and "pcap_FindAllDevs env = Inl err"
  shows "main env args
         = Some ([SetVerbose (Verbose cfg), Info listDevices_banner, FindAllDevs_call,
                  Fatal (''list devices: '' @ err)], 1)"
  using assms by (simp add: main_list_mode listDevices_def Fatalln_def)

text \<open>
  C7. The claim: with \<^verbatim>\<open>-list-devices\<close> and a successful enumeration the process prints
  the devices and exits with status 0; on any configuration or resolution error it exits
  with a non-zero status and a descriptive message. With \<^verbatim>\<open>-list-devices\<close> the parameters
  are not examined: for \<^verbatim>\<open>-list-devices -upstream-port 70000\<close> the filter list and the
  server are empty and the port is out of range, yet nothing is reported and the process
  exits with status 0.
\<close>

theorem C7_list_mode_counterexample:
  "argListDevs list_port_args
   \<and> loadConfig example_env list_port_args
       = Inr \<lparr> ListenDevs = [], UpDev = [], Method = ''plain'', Password = [], Verbose = False,
               UpPort = 70000, Filters = [], Server = [] \<rparr>
   \<and> config_error \<lparr> ListenDevs = [], UpDev = [], Method = ''plain'', Password = [],
                     Verbose = False, UpPort = 70000, Filters = [], Server = [] \<rparr>
   \<and> main example_env list_port_args
       = Some ([SetVerbose False, Info listDevices_banner, FindAllDevs_call,
                Info (''  eth0'' @ [CHR 0x0A]), Info (''  lo'' @ [CHR 0x0A])], 0)"
proof -
  have cfg: "loadConfig example_env list_port_args
       = Inr \<lparr> ListenDevs = [], UpDev = [], Method = ''plain'', Password = [], Verbose = False,
               UpPort = 70000, Filters = [], Server = [] \<rparr>"
    by (simp add: loadConfig_def list_port_args_def no_args_def splitArg_def)
  have flag: "argListDevs list_port_args"
    by (simp add: list_port_args_def no_args_def)
  have "listDevices example_env [SetVerbose False]
       = ([SetVerbose False, Info listDevices_banner, FindAllDevs_call,
           Info (''  eth0'' @ [CHR 0x0A]), Info (''  lo'' @ [CHR 0x0A])], 0)"
    by (simp add: listDevices_def example_env_def)
  with main_list_mode [OF flag cfg]
  have "main example_env list_port_args
       = Some ([SetVerbose False, Info listDevices_banner, FindAllDevs_call,
                Info (''  eth0'' @ [CHR 0x0A]), Info (''  lo'' @ [CHR 0x0A])], 0)"
    by simp
  with cfg flag show ?thesis
    by (simp add: config_error_def)
qed

text \<open>
  C7, amended. With \<^verbatim>\<open>-list-devices\<close>, a run that enumerates the devices with success
  prints them (they are the last entries of the log) and exits with status 0. Every run that
  ends obeys \<open>exit_discipline\<close>: the status is non-zero exactly when a fatal error was
  reported, the report is the last entry of the log and has a text. These errors end the run
  with a non-zero status: a configuration file that does not parse; with
  \<^verbatim>\<open>-list-devices\<close>, an enumeration that fails; without \<^verbatim>\<open>-list-devices\<close>, every
  configuration error and every resolution error, provided that the port selection, which
  stands before some of the checks, returns.
\<close>

theorem C7_exit_status:
  "(argListDevs args \<and> main env args = Some (tr, st) \<and> FindAllDevs_call \<in> set tr
      \<and> pcap_FindAllDevs env = Inr devs
    \<longrightarrow> st = 0
        \<and> (\<exists>pre. tr = pre @ map (\<lambda>dev. Info (''  '' @ Device_String env dev @ [CHR 0x0A])) devs))
   \<and> (argListDevs args \<and> loadConfig env args = Inr cfg \<and> pcap_FindAllDevs env = Inr devs
      \<longrightarrow> main env args
          = Some ([SetVerbose (Verbose cfg), Info listDevices_banner, FindAllDevs_call]
                  @ map (\<lambda>dev. Info (''  '' @ Device_String env dev @ [CHR 0x0A])) devs, 0))
   \<and> (main env args = Some r \<longrightarrow> exit_discipline r)
   \<and> (argConfig args \<noteq> [] \<and> config_ParseFile env (argConfig args) = Inl err
      \<longrightarrow> main env args
          = Some ([Fatal (''parse config file '' @ argConfig args @ '': '' @ err)], 1))
   \<and> (argListDevs args \<and> loadConfig env args = Inr cfg \<and> isl (pcap_FindAllDevs env)
      \<longrightarrow> (\<exists>tr' st'. main env args = Some (tr', st') \<and> st' \<noteq> 0))
   \<and> (\<not> argListDevs args \<and> loadConfig env args = Inr cfg \<and> port_selection_returns env cfg
        \<and> (config_error cfg \<or> resolution_error env cfg)
      \<longrightarrow> (\<exists>tr' st'. main env args = Some (tr', st') \<and> st' \<noteq> 0))"
proof (intro conjI impI)
  assume a: "argListDevs args \<and> main env args = Some (tr, st) \<and> FindAllDevs_call \<in> set tr
      \<and> pcap_FindAllDevs env = Inr devs"
  then have flag: "argListDevs args" and run: "main env args = Some (tr, st)"
    and call: "FindAllDevs_call \<in> set tr" and devs: "pcap_FindAllDevs env = Inr devs"
    by simp_all
  from flag run call obtain cfg' where cfg': "loadConfig env args = Inr cfg'"
    using list_mode_enumeration_reached [of args env tr st] by blast
  have "main env args
         = Some ([SetVerbose (Verbose cfg'), Info listDevices_banner, FindAllDevs_call]
                 @ map (\<lambda>dev. Info (''  '' @ Device_String env dev @ [CHR 0x0A])) devs, 0)"
    using flag cfg' devs by (rule list_mode_success)
  with run
  have tr: "tr = [SetVerbose (Verbose cfg'), Info listDevices_banner, FindAllDevs_call]
                 @ map (\<lambda>dev. Info (''  '' @ Device_String env dev @ [CHR 0x0A])) devs"
    and st: "st = 0"
    by simp_all
  from st show "st = 0" .
  from tr show "\<exists>pre. tr = pre @ map (\<lambda>dev. Info (''  '' @ Device_String env dev @ [CHR 0x0A])) devs"
    by (rule exI [of _ "[SetVerbose (Verbose cfg'), Info listDevices_banner, FindAllDevs_call]"])
next
  assume "argListDevs args \<and> loadConfig env args = Inr cfg \<and> pcap_FindAllDevs env = Inr devs"
  then show "main env args
          = Some ([SetVerbose (Verbose cfg), Info listDevices_banner, FindAllDevs_call]
                  @ map (\<lambda>dev. Info (''  '' @ Device_String env dev @ [CHR 0x0A])) devs, 0)"
    by (simp add: list_mode_success)
next
  assume "main env args = Some r"
  then show "exit_discipline r" by (rule exit_discipline_main)
next
  assume "argConfig args \<noteq> [] \<and> config_ParseFile env (argConfig args) = Inl err"
  then show "main env args
          = Some ([Fatal (''parse config file '' @ argConfig args @ '': '' @ err)], 1)"
    by (simp add: main_def loadConfig_def Fatalln_def)
next
  assume a: "argListDevs args \<and> loadConfig env args = Inr cfg \<and> isl (pcap_FindAllDevs env)"
  then obtain err where "pcap_FindAllDevs env = Inl err"
    by (cases "pcap_FindAllDevs env") simp_all
  with a show "\<exists>tr' st'. main env args = Some (tr', st') \<and> st' \<noteq> 0"
    by (simp add: list_mode_failure)
next
  assume a: "\<not> argListDevs args \<and> loadConfig env args = Inr cfg \<and> port_selection_returns env cfg
        \<and> (config_error cfg \<or> resolution_error env cfg)"
  then obtain tr' where "proxy env cfg [SetVerbose (Verbose cfg)] = Some (tr', 1)"
    using proxy_error_status [of env cfg "[SetVerbose (Verbose cfg)]"] by blast
  with a show "\<exists>tr' st'. main env args = Some (tr', st') \<and> st' \<noteq> 0"
    by (simp add: main_proxy_mode)
qed


lemma list_cfg:
  "loadConfig example_env list_args
   = Inr \<lparr> ListenDevs = [], UpDev = [], Method = ''plain'', Password = [], Verbose = False,
           UpPort = 0, Filters = [], Server = [] \<rparr>"
  by (simp add: loadConfig_def list_args_def no_args_def splitArg_def)

theorem C7_witness:
  "main example_env list_args
   = Some ([SetVerbose False, Info listDevices_banner, FindAllDevs_call,
            Info (''  eth0'' @ [CHR 0x0A]), Info (''  lo'' @ [CHR 0x0A])], 0)
   \<and> exit_discipline (([SetVerbose False, Info listDevices_banner, FindAllDevs_call,
                         Info (''  eth0'' @ [CHR 0x0A]), Info (''  lo'' @ [CHR 0x0A])], 0)
                       :: (string, string) run)
   \<and> main example_env list_missing_file_args
       = Some ([Fatal ''parse config file missing.json: no such file''], 1)
   \<and> (\<exists>tr' st'. main no_devices_env list_args = Some (tr', st') \<and> st' \<noteq> 0)
   \<and> (\<exists>tr' st'. main example_env unknown_method_args = Some (tr', st') \<and> st' \<noteq> 0)"
proof -
  let ?cfg = "\<lparr> ListenDevs = [], UpDev = [], Method = ''plain'', Password = [], Verbose = False,
                UpPort = 0, Filters = [], Server = [] \<rparr>"
  let ?run = "([SetVerbose False, Info listDevices_banner, FindAllDevs_call,
                Info (''  eth0'' @ [CHR 0x0A]), Info (''  lo'' @ [CHR 0x0A])], 0)
              :: (string, string) run"
  have flag: "argListDevs list_args"
    by (simp add: list_args_def no_args_def)
  have devs: "pcap_FindAllDevs example_env = Inr [''eth0'', ''lo'']"
    by (simp add: example_env_def)
  have str: "Device_String example_env = (\<lambda>dev. dev)"
    by (simp add: example_env_def)
  note listing = C7_exit_status [where args = list_args and env = example_env and cfg = ?cfg
      and devs = "[''eth0'', ''lo'']" and r = ?run and tr = "[]" and st = 0]
  from listing flag list_cfg devs
  have run: "main example_env list_args = Some ?run"
    by (simp add: str)
  from listing [THEN conjunct2, THEN conjunct2, THEN conjunct1] run
  have disc: "exit_discipline ?run"
    by (rule mp)
  let ?cfg' = "\<lparr> ListenDevs = [], UpDev = [], Method = ''rot13'', Password = [], Verbose = False,
                UpPort = 0, Filters = ['':49200''], Server = ''203.0.113.5:12345'' \<rparr>"
  have flag': "\<not> argListDevs unknown_method_args"
    by (simp add: unknown_method_args_def no_args_def)
  have verify: "verifyParameters example_env ?cfg' = Inr [PortFilter 49200]"
    by (simp add: verifyParameters_def example_env_def)
  have "rand_Int31 example_env = counting_source"
    by (simp add: example_env_def)
  then have "randomizeUpPort (UpPort ?cfg') [PortFilter 49200] (rand_Int31 example_env) = Some 49201"
    by (simp add: randomizeUpPort_def counting_source_run_single)
  then have ret: "port_selection_returns example_env ?cfg'"
    by (simp add: port_selection_returns_def verify)
  have "isl (crypto_Parse example_env (Method ?cfg') (Password ?cfg'))"
    by (simp add: example_env_def)
  then have err: "resolution_error example_env ?cfg'"
    by (simp add: resolution_error_def)
  from C7_exit_status [where args = unknown_method_args and env = example_env and cfg = ?cfg'
      and tr = "[]" and st = 0 and devs = "[]" and r = ?run]
    flag' unknown_method_cfg ret err
  have unknown: "\<exists>tr' st'. main example_env unknown_method_args = Some (tr', st') \<and> st' \<noteq> 0"
    by blast
  have name: "argConfig list_missing_file_args = ''missing.json''"
    by (simp add: list_missing_file_args_def no_args_def)
  have "config_ParseFile example_env ''missing.json'' = Inl ''no such file''"
    by (simp add: example_env_def)
  with C7_exit_status [where args = list_missing_file_args and env = example_env and cfg = ?cfg
      and tr = "[]" and st = 0 and devs = "[]" and r = ?run and err = "''no such file''"]
  have missing: "main example_env list_missing_file_args
       = Some ([Fatal ''parse config file missing.json: no such file''], 1)"
    by (simp add: name)
  have cfg_nd: "loadConfig no_devices_env list_args = Inr ?cfg"
    by (simp add: loadConfig_def list_args_def no_args_def splitArg_def)
  have "isl (pcap_FindAllDevs no_devices_env)"
    by (simp add: no_devices_env_def)
  with C7_exit_status [where args = list_args and env = no_devices_env and cfg = ?cfg
      and tr = "[]" and st = 0 and devs = "[]" and r = ?run and err = "[]"]
    flag cfg_nd
  have enum: "\<exists>tr' st'. main no_devices_env list_args = Some (tr', st') \<and> st' \<noteq> 0"
    by blast
  from run disc missing enum unknown show ?thesis by blast
qed

subsection \<open>Runs that never end, and errors before the listing\<close>

text \<open>
  When the ByPort filters name every port of 49152--65535, every draw is found and the port
  selection runs for ever, whatever the source: a run with such filters, the upstream port
  left at 0 and an unknown method never gets to \<^verbatim>\<open>crypto.Parse\<close> and never exits.
\<close>

declare show_nat.simps [simp del]

lemma digit_char_val: "d < 10 \<Longrightarrow> digit_val (''0123456789'' ! d) = d"
proof -
  assume "d < 10"
  then consider "d = 0" | "d = 1" | "d = 2" | "d = 3" | "d = 4" | "d = 5" | "d = 6" | "d = 7"
    | "d = 8" | "d = 9"
    by atomize_elim arith
  then show ?thesis
    by cases (simp_all add: digit_val_def)
qed

lemma digit_char_is_digit: "d < 10 \<Longrightarrow> is_digit (''0123456789'' ! d)"
proof -
  assume "d < 10"
  then consider "d = 0" | "d = 1" | "d = 2" | "d = 3" | "d = 4" | "d = 5" | "d = 6" | "d = 7"
    | "d = 8" | "d = 9"
    by atomize_elim arith
  then show ?thesis
    by cases (simp_all add: is_digit_def)
qed

lemma read_nat_snoc: "read_nat (ds @ [c]) = 10 * read_nat ds + digit_val c"
  by (simp add: read_nat_def)

lemma read_nat_show_nat: "read_nat (show_nat n) = n"
proof (induction n rule: show_nat.induct)
  case (1 n)
  show ?case
  proof (cases "n < 10")
    case True
    then have "show_nat n = [''0123456789'' ! n]"
      by (subst show_nat.simps) simp
    with True show ?thesis
      by (simp add: read_nat_def digit_char_val)
  next
    case False
    then have "show_nat n = show_nat (n div 10) @ [''0123456789'' ! (n mod 10)]"
      by (subst show_nat.simps) simp
    then have "read_nat (show_nat n) = 10 * read_nat (show_nat (n div 10))
                                       + digit_val (''0123456789'' ! (n mod 10))"
      by (simp only: read_nat_snoc)
    also have "\<dots> = 10 * (n div 10) + n mod 10"
      using "1" [OF False] by (simp add: digit_char_val)
    also have "\<dots> = n" by simp
    finally show ?thesis .
  qed
qed

lemma show_nat_digits: "show_nat n \<noteq> [] \<and> list_all is_digit (show_nat n)"
proof (induction n rule: show_nat.induct)
  case (1 n)
  show ?case
  proof (cases "n < 10")
    case True
    then have "show_nat n = [''0123456789'' ! n]"
      by (subst show_nat.simps) simp
    with True show ?thesis
      by (simp add: digit_char_is_digit)
  next
    case False
    then have "show_nat n = show_nat (n div 10) @ [''0123456789'' ! (n mod 10)]"
      by (subst show_nat.simps) simp
    with "1" [OF False] show ?thesis
      by (simp add: digit_char_is_digit)
  qed
qed

lemma parse_port_filter_show:
  "n < 65536 \<Longrightarrow> parse_port_filter (CHR '':'' # show_nat n) = Inr (PortFilter (of_nat n))"
  using show_nat_digits [of n] by (simp add: parse_port_filter_def read_nat_show_nat)

lemma set_port_range: "set port_range = {49152..<65536}"
  unfolding port_range_def by (rule set_upt)

lemma port_range_not_Nil: "port_range \<noteq> []"
proof -
  have "(49152::nat) \<in> set port_range"
    by (simp add: set_port_range)
  then show ?thesis by auto
qed

lemma parseFilters_map:
  assumes "\<forall>x\<in>set xs. pcap_ParseFilter env (f x) = Inr (g x)"
  shows "parseFilters env filters (map f xs) = Inr (filters @ map g xs)"
  using assms by (induction xs arbitrary: filters) simp_all

lemma covering_filters_exist:
  "exist_loop covering_filters (49152 + int (Intn raw 16384))"
proof -
  have lt: "Intn raw 16384 < 16384" by (rule Intn_16384_range)
  have "uint16 (49152 + int (Intn raw 16384)) = of_nat (49152 + Intn raw 16384)"
    by (simp add: uint16_def)
  moreover from lt have "49152 + Intn raw 16384 \<in> set port_range"
    by (simp add: set_port_range)
  ultimately have "PortFilter (uint16 (49152 + int (Intn raw 16384))) \<in> set covering_filters"
    unfolding covering_filters_def by (simp only: set_map image_eqI)
  then show ?thesis by (simp only: exist_loop_iff)
qed

lemma covering_filters_never_returns:
  "randomize_loop covering_filters int31 k = None"
proof (cases "randomize_loop covering_filters int31 k")
  case None
  then show ?thesis .
next
  case (Some p)
  then obtain j where "p = 49152 + int (Intn (int31 j) 16384)" "\<not> exist_loop covering_filters p"
    by (auto dest: randomize_loop_Some)
  with covering_filters_exist [of "int31 j"] show ?thesis by simp
qed

lemma covering_verifyParameters:
  "verifyParameters covering_env covering_cfg = Inr covering_filters"
proof -
  have "\<forall>n\<in>set port_range.
          pcap_ParseFilter covering_env (CHR '':'' # show_nat n) = Inr (PortFilter (of_nat n))"
    by (simp add: set_port_range covering_env_def parse_port_filter_show)
  then have "parseFilters covering_env [] (map (\<lambda>n. CHR '':'' # show_nat n) port_range)
             = Inr ([] @ map (\<lambda>n. PortFilter (of_nat n)) port_range)"
    by (rule parseFilters_map)
  then have "parseFilters covering_env [] (Filters covering_cfg) = Inr covering_filters"
    by (simp add: covering_cfg_def covering_filters_def)
  moreover have "Filters covering_cfg \<noteq> []"
    by (simp add: covering_cfg_def port_range_not_Nil)
  moreover have "Server covering_cfg \<noteq> []" and "UpPort covering_cfg = 0"
    by (simp_all add: covering_cfg_def)
  ultimately show ?thesis
    by (simp add: verifyParameters_def)
qed

lemma covered_ports_never_exits:
  "\<not> argListDevs covering_args
   \<and> loadConfig covering_env covering_args = Inr covering_cfg
   \<and> isl (crypto_Parse covering_env (Method covering_cfg) (Password covering_cfg))
   \<and> main covering_env covering_args = None"
proof -
  have flag: "\<not> argListDevs covering_args"
    by (simp add: covering_args_def no_args_def)
  have cfg: "loadConfig covering_env covering_args = Inr covering_cfg"
    by (simp add: loadConfig_def covering_args_def no_args_def covering_env_def)
  have unknown: "isl (crypto_Parse covering_env (Method covering_cfg) (Password covering_cfg))"
    by (simp add: covering_env_def example_env_def covering_cfg_def)
  have "UpPort covering_cfg = 0"
    by (simp add: covering_cfg_def)
  then have "randomizeUpPort (UpPort covering_cfg) covering_filters (rand_Int31 covering_env) = None"
    by (simp add: randomizeUpPort_def covering_filters_never_returns)
  then have "proxy covering_env covering_cfg [SetVerbose (Verbose covering_cfg)] = None"
    by (simp add: proxy_def covering_verifyParameters)
  with flag cfg have "main covering_env covering_args = None"
    by (simp add: main_proxy_mode)
  with flag cfg unknown show ?thesis by simp
qed

text \<open>
  With \<^verbatim>\<open>-list-devices\<close> and a configuration file that does not parse, the run ends at
  line 53, before the listing.
\<close>

lemma list_mode_config_file_fails:
  "argListDevs list_missing_file_args
   \<and> main example_env list_missing_file_args
       = Some ([Fatal ''parse config file missing.json: no such file''], 1)"
  by (simp add: main_def loadConfig_def Fatalln_def example_env_def list_missing_file_args_def
      no_args_def)

end
